theory Spec2Isabelle
  imports Complex_Main "HOL-Library.Multiset"
begin

section \<open>Timeline page: category filter\<close>

text \<open>
  \<^verbatim>\<open>pages/timeline.tsx\<close>, \<^verbatim>\<open>handleCategorySelect\<close>. The selection is a list of category ids
  (a JavaScript array of strings). \<^verbatim>\<open>ALL_EVENTS_OPTION.id\<close> comes from \<^verbatim>\<open>config/dropdown\<close>, so
  the sentinel id is a parameter \<open>allId\<close> of the model. The body of the state updater:

  \<^verbatim>\<open>if (categoryId === ALL_EVENTS_OPTION.id) return [ALL_EVENTS_OPTION.id];\<close>
  \<^verbatim>\<open>if (prev.includes(ALL_EVENTS_OPTION.id)) return [categoryId];\<close>
  \<^verbatim>\<open>const newCategories = prev.includes(categoryId)\<close>
  \<^verbatim>\<open>  ? prev.filter((id) => id !== categoryId) : [...prev, categoryId];\<close>
  \<^verbatim>\<open>return newCategories.length === 0 ? [ALL_EVENTS_OPTION.id] : newCategories;\<close>
\<close>

definition handleCategorySelect :: "string \<Rightarrow> string \<Rightarrow> string list \<Rightarrow> string list" where
  "handleCategorySelect allId categoryId prev =
     (if categoryId = allId then [allId]
      else if allId \<in> set prev then [categoryId]
      else
        (let newCategories =
               (if categoryId \<in> set prev then filter (\<lambda>i. i \<noteq> categoryId) prev
                else prev @ [categoryId])
         in if length newCategories = 0 then [allId] else newCategories))"

text \<open>The initial state, \<^verbatim>\<open>useState([ALL_EVENTS_OPTION.id])\<close>.\<close>

definition initialSelectedCategories :: "string \<Rightarrow> string list" where
  "initialSelectedCategories allId = [allId]"

text \<open>A finite sequence of clicks, each one call of the handler on the state it finds.\<close>

definition selectMany :: "string \<Rightarrow> string list \<Rightarrow> string list \<Rightarrow> string list" where
  "selectMany allId clicks start = foldl (\<lambda>sel c. handleCategorySelect allId c sel) start clicks"

section \<open>Event box: releasing a drag\<close>

text \<open>
  The event box component (\<^verbatim>\<open>EventBox\<close>). JavaScript numbers that hold pixel coordinates are
  modelled as reals: the coordinates of a mouse event and of a bounding rectangle are
  finite, never NaN. \<^verbatim>\<open>Math.round\<close> rounds to the nearest integer, a tie going up.
  The column handed down by the layout and the column computed here are integers.
\<close>

record EventBoxProps =
  event_id :: string
  position :: real
  column :: int
  isDraggingEnabled :: bool

record EventBoxState =
  isDragging :: bool
  startX :: real
  startY :: real
  currentX :: real
  currentY :: real

definition Math_round :: "real \<Rightarrow> int" where
  "Math_round x = \<lfloor>x + 1 / 2\<rfloor>"

definition baseOffset :: real where
  "baseOffset = 210"

definition columnWidth :: real where
  "columnWidth = 220"

text \<open>
  The column computed at release,
  \<^verbatim>\<open>Math.max(0, Math.min(Math.round((e.clientX - startX - baseOffset) / columnWidth), 19))\<close>.
\<close>

definition boundedColumn :: "EventBoxState \<Rightarrow> real \<Rightarrow> int" where
  "boundedColumn st clientX =
     (let finalX = clientX - startX st;
          relativeX = finalX - baseOffset;
          newColumn = Math_round (relativeX / columnWidth)
      in max 0 (min newColumn 19))"

text \<open>
  \<^verbatim>\<open>handleMouseUp\<close>: the new component state and the call of \<^verbatim>\<open>onUpdateColumn\<close> it makes, if
  any, as the triple of its arguments (event id, column, position). Resetting the inline
  styles of the DOM nodes is not part of the model.
\<close>

definition handleMouseUp ::
  "EventBoxProps \<Rightarrow> EventBoxState \<Rightarrow> real \<Rightarrow> EventBoxState \<times> (string \<times> int \<times> real) option" where
  "handleMouseUp props st clientX =
     (if isDragging st then
        (st\<lparr>isDragging := False\<rparr>,
         if boundedColumn st clientX \<noteq> column props
         then Some (event_id props, boundedColumn st clientX, position props)
         else None)
      else (st, None))"

text \<open>
  Modelled from the spec: \<^verbatim>\<open>onUpdateColumn\<close> is a prop whose implementation (the timeline
  grid) is not among the source files. The spec says that a manual column reassignment
  "writes the new column back to the event's stored record" and that "subsequent loads
  reflect the new column". The stored columns are a map from event id to column.
\<close>

definition onUpdateColumn :: "(string \<rightharpoonup> int) \<Rightarrow> string \<Rightarrow> int \<Rightarrow> real \<Rightarrow> (string \<rightharpoonup> int)" where
  "onUpdateColumn stored eventId newColumn pos = stored(eventId \<mapsto> newColumn)"

text \<open>
  Modelled from the spec: a later load of an event's record ("subsequent loads reflect
  the new column"); the code that loads the columns is not among the source files.
\<close>

definition loadColumn :: "(string \<rightharpoonup> int) \<Rightarrow> string \<Rightarrow> int option" where
  "loadColumn stored eventId = stored eventId"

text \<open>A release: the handler runs, and the call it makes (if any) reaches the store.\<close>

definition release :: "EventBoxProps \<Rightarrow> EventBoxState \<Rightarrow> real \<Rightarrow> (string \<rightharpoonup> int) \<Rightarrow> (string \<rightharpoonup> int)" where
  "release props st clientX stored =
     (case snd (handleMouseUp props st clientX) of
        None \<Rightarrow> stored
      | Some (eventId, newColumn, pos) \<Rightarrow> onUpdateColumn stored eventId newColumn pos)"

text \<open>An event box in column 0 being dragged, and the stored columns of two events.\<close>

definition exampleProps :: EventBoxProps where
  "exampleProps = \<lparr>event_id = ''e1'', position = 300, column = 0, isDraggingEnabled = True\<rparr>"

definition exampleDrag :: EventBoxState where
  "exampleDrag = \<lparr>isDragging = True, startX = 15, startY = 10, currentX = 210, currentY = 290\<rparr>"

definition exampleStored :: "string \<rightharpoonup> int" where
  "exampleStored = [''e1'' \<mapsto> 0, ''e2'' \<mapsto> 5]"

section \<open>Timeline page: the events subscription\<close>

text \<open>
  A document of the \<^verbatim>\<open>events\<close> collection has an id and a set of fields; the event built
  from it is the object \<^verbatim>\<open>{ id: doc.id, ...doc.data() }\<close>, so a field named \<^verbatim>\<open>id\<close> in the
  data wins over the document id. Objects are maps from field names to values, and the
  values are strings.
\<close>

type_synonym TimelineEvent = "string \<rightharpoonup> string"

record EventDoc =
  doc_id :: string
  doc_data :: "string \<rightharpoonup> string"

definition toEvent :: "EventDoc \<Rightarrow> TimelineEvent" where
  "toEvent d = [''id'' \<mapsto> doc_id d] ++ doc_data d"

text \<open>
  \<^verbatim>\<open>new Date(a.date).getTime()\<close> is a number of milliseconds, or NaN when the field is
  missing or does not parse. The parser is the language's own, so it is a parameter
  \<open>getTime\<close> of the model, \<open>None\<close> standing for NaN.
\<close>

definition eventTime :: "(string option \<Rightarrow> int option) \<Rightarrow> TimelineEvent \<Rightarrow> int option" where
  "eventTime getTime e = getTime (e ''date'')"

text \<open>
  The comparator \<^verbatim>\<open>(a, b) => new Date(a.date).getTime() - new Date(b.date).getTime()\<close>.
  Time values are integers of magnitude at most 8.64e15, so the sign of the floating-point
  difference is the sign of the exact one; a difference with NaN is NaN.
\<close>

definition compareByDate ::
  "(string option \<Rightarrow> int option) \<Rightarrow> TimelineEvent \<Rightarrow> TimelineEvent \<Rightarrow> int option" where
  "compareByDate getTime a b =
     (case (eventTime getTime a, eventTime getTime b) of
        (Some x, Some y) \<Rightarrow> Some (x - y)
      | _ \<Rightarrow> None)"

text \<open>
  \<^verbatim>\<open>Array.prototype.sort\<close> with a comparator. The language fixes its result for a consistent
  comparator: the stable sorted arrangement. It is modelled by a stable insertion sort
  that reads only whether the comparator's result is greater than zero, a NaN result
  counting as zero as the language's SortCompare prescribes. Each element in turn moves
  left past the elements that compare greater than it. The sorted prefix is kept
  reversed, so that its last element is at the head.
\<close>

definition isPositive :: "int option \<Rightarrow> bool" where
  "isPositive r = (case r of None \<Rightarrow> False | Some v \<Rightarrow> 0 < v)"

fun insertFromRight :: "('a \<Rightarrow> 'a \<Rightarrow> int option) \<Rightarrow> 'a \<Rightarrow> 'a list \<Rightarrow> 'a list" where
  "insertFromRight cmp x [] = [x]"
| "insertFromRight cmp x (y # ys) =
     (if isPositive (cmp y x) then y # insertFromRight cmp x ys else x # y # ys)"

fun sortLoop :: "('a \<Rightarrow> 'a \<Rightarrow> int option) \<Rightarrow> 'a list \<Rightarrow> 'a list \<Rightarrow> 'a list" where
  "sortLoop cmp placed [] = rev placed"
| "sortLoop cmp placed (x # xs) = sortLoop cmp (insertFromRight cmp x placed) xs"

definition Array_sort :: "('a \<Rightarrow> 'a \<Rightarrow> int option) \<Rightarrow> 'a list \<Rightarrow> 'a list" where
  "Array_sort cmp xs = sortLoop cmp [] xs"

text \<open>
  The state of the timeline page (the \<^verbatim>\<open>useState\<close> cells of \<^verbatim>\<open>TimelinePage\<close>);
  \<open>draggingEnabled\<close> is the cell \<^verbatim>\<open>isDraggingEnabled\<close>.
\<close>

record TimelinePage =
  events :: "TimelineEvent list"
  isDropdownOpen :: bool
  selectedCategories :: "string list"
  isSettingsOpen :: bool
  draggingEnabled :: bool
  showEventDates :: bool
  resetKey :: int
  yearSpacing :: real
  isLoading :: bool
  error :: "string option"

text \<open>
  The two callbacks given to \<^verbatim>\<open>onSnapshot(collection(db, "events"), ...)\<close>: the one for a
  snapshot (its documents in \<open>docs\<close>) and the one for a failure of the subscription.
\<close>

definition onEventsSnapshot ::
  "(string option \<Rightarrow> int option) \<Rightarrow> EventDoc list \<Rightarrow> TimelinePage \<Rightarrow> TimelinePage" where
  "onEventsSnapshot getTime docs st =
     (let updatedEvents = map toEvent docs
      in st\<lparr>events := Array_sort (compareByDate getTime) updatedEvents, isLoading := False\<rparr>)"

definition onEventsError :: "TimelinePage \<Rightarrow> TimelinePage" where
  "onEventsError st =
     st\<lparr>error := Some ''Failed to load updates. Please refresh the page.'', isLoading := False\<rparr>"

text \<open>
  What the page shows: nothing while \<^verbatim>\<open>isLoading\<close> holds; otherwise the error banner (when
  \<^verbatim>\<open>error\<close> is a non-empty string) and the timeline container with the events, the selected
  categories and the zoom of the state.
\<close>

record View =
  banner :: "string option"
  shownEvents :: "TimelineEvent list"
  shownCategories :: "string list"
  shownYearSpacing :: real

definition render :: "TimelinePage \<Rightarrow> View option" where
  "render st =
     (if isLoading st then None
      else Some \<lparr>banner = (case error st of None \<Rightarrow> None
                             | Some m \<Rightarrow> if m = [] then None else Some m),
                 shownEvents = events st,
                 shownCategories = selectedCategories st,
                 shownYearSpacing = yearSpacing st\<rparr>)"

text \<open>
  A list is in non-decreasing order of date when no event comes before an event of an
  earlier date; an event whose date is no time at all constrains nothing.
\<close>

definition timeLe :: "int option \<Rightarrow> int option \<Rightarrow> bool" where
  "timeLe s t = (case (s, t) of (Some x, Some y) \<Rightarrow> x \<le> y | _ \<Rightarrow> True)"

definition sortedByDate :: "(string option \<Rightarrow> int option) \<Rightarrow> TimelineEvent list \<Rightarrow> bool" where
  "sortedByDate getTime es =
     sorted_wrt (\<lambda>a b. timeLe (eventTime getTime a) (eventTime getTime b)) es"

text \<open>
  The time values of the two date strings of the examples; every other string of the
  examples is not a date.
\<close>

definition exampleGetTime :: "string option \<Rightarrow> int option" where
  "exampleGetTime v =
     (case v of
        None \<Rightarrow> None
      | Some s \<Rightarrow>
          if s = ''2010-01-01'' then Some 1262304000000
          else if s = ''2020-01-01'' then Some 1577836800000
          else None)"

definition exampleDoc :: "string \<Rightarrow> string \<Rightarrow> EventDoc" where
  "exampleDoc i d = \<lparr>doc_id = i, doc_data = [''date'' \<mapsto> d]\<rparr>"

definition examplePage :: "TimelineEvent list \<Rightarrow> TimelinePage" where
  "examplePage es =
     \<lparr>events = es, isDropdownOpen = False, selectedCategories = [''all''],
      isSettingsOpen = False, draggingEnabled = False, showEventDates = True,
      resetKey = 0, yearSpacing = 100, isLoading = True, error = None\<rparr>"

text \<open>
  Three documents in the order a snapshot delivers them; the date of the second is the
  string \<^verbatim>\<open>unknown\<close>, which does not parse. And two documents with dates, the later one
  first.
\<close>

definition exampleDocs :: "EventDoc list" where
  "exampleDocs =
     [exampleDoc ''a'' ''2020-01-01'',
      exampleDoc ''b'' ''unknown'',
      exampleDoc ''c'' ''2010-01-01'']"

definition datedDocs :: "EventDoc list" where
  "datedDocs = [exampleDoc ''a'' ''2020-01-01'', exampleDoc ''c'' ''2010-01-01'']"

section \<open>Timeline page: zoom\<close>

text \<open>
  Modelled from the spec: \<^verbatim>\<open>zoomIn\<close> and \<^verbatim>\<open>zoomOut\<close> are imported from
  \<^verbatim>\<open>config/timelineControls\<close>, which is not among the source files; the page only applies
  them to the current \<^verbatim>\<open>yearSpacing\<close>. The spec: zoom "multiplies/divides yearSpacing by a
  fixed step factor, clamped to [min, max]". The step factor and the two bounds are
  parameters. The arithmetic of the program is floating point: \<open>rnd\<close> is the rounding of
  an exact product or quotient to the number the program computes, also a parameter.
\<close>

record ZoomConfig =
  zoomStep :: real
  minYearSpacing :: real
  maxYearSpacing :: real

text \<open>Modelled from the spec: "clamped to [min, max]".\<close>

definition clampSpacing :: "ZoomConfig \<Rightarrow> real \<Rightarrow> real" where
  "clampSpacing cfg x = max (minYearSpacing cfg) (min (maxYearSpacing cfg) x)"

text \<open>
  Modelled from the spec: \<^verbatim>\<open>zoomIn\<close> (\<^verbatim>\<open>config/timelineControls\<close>) "multiplies ... yearSpacing
  by a fixed step factor, clamped to [min, max]".
\<close>

definition zoomIn :: "(real \<Rightarrow> real) \<Rightarrow> ZoomConfig \<Rightarrow> real \<Rightarrow> real" where
  "zoomIn rnd cfg current = clampSpacing cfg (rnd (current * zoomStep cfg))"

text \<open>
  Modelled from the spec: \<^verbatim>\<open>zoomOut\<close> (\<^verbatim>\<open>config/timelineControls\<close>) "divides yearSpacing by a
  fixed step factor, clamped to [min, max]".
\<close>

definition zoomOut :: "(real \<Rightarrow> real) \<Rightarrow> ZoomConfig \<Rightarrow> real \<Rightarrow> real" where
  "zoomOut rnd cfg current = clampSpacing cfg (rnd (current / zoomStep cfg))"

text \<open>
  \<^verbatim>\<open>handleZoomIn\<close> and \<^verbatim>\<open>handleZoomOut\<close> of the page:
  \<^verbatim>\<open>setYearSpacing((current) => zoomIn(current))\<close> and the same with \<^verbatim>\<open>zoomOut\<close>.
\<close>

definition handleZoomIn :: "(real \<Rightarrow> real) \<Rightarrow> ZoomConfig \<Rightarrow> TimelinePage \<Rightarrow> TimelinePage" where
  "handleZoomIn rnd cfg st = st\<lparr>yearSpacing := zoomIn rnd cfg (yearSpacing st)\<rparr>"

definition handleZoomOut :: "(real \<Rightarrow> real) \<Rightarrow> ZoomConfig \<Rightarrow> TimelinePage \<Rightarrow> TimelinePage" where
  "handleZoomOut rnd cfg st = st\<lparr>yearSpacing := zoomOut rnd cfg (yearSpacing st)\<rparr>"

text \<open>
  An example configuration, and a rounding to the nearest multiple of 1/1024 as an
  example of an arithmetic that is not exact.
\<close>

definition exampleZoom :: ZoomConfig where
  "exampleZoom = \<lparr>zoomStep = 6 / 5, minYearSpacing = 50, maxYearSpacing = 400\<rparr>"

definition roundTo1024 :: "real \<Rightarrow> real" where
  "roundTo1024 x = of_int \<lfloor>x * 1024 + 1 / 2\<rfloor> / 1024"

section \<open>Player management page\<close>

text \<open>
  \<^verbatim>\<open>pages/admin/player.tsx\<close>. A player as stored, and the form (\<^verbatim>\<open>Partial<Player>\<close>: every
  field may be missing). The fields of the form carry the prefix \<open>form_\<close>, the
  \<^verbatim>\<open>useState\<close> cells \<^verbatim>\<open>error\<close> and \<^verbatim>\<open>success\<close> of the page are \<open>errorMsg\<close> and
  \<open>successMsg\<close>. \<^verbatim>\<open>lastUpdated\<close> is left out. Strings are byte strings, an empty string is
  \<open>[]\<close>, and \<^verbatim>\<open>null\<close> and \<^verbatim>\<open>undefined\<close> are both \<open>None\<close>.
\<close>

record Player =
  player_id :: string
  currentIgn :: string
  uuid :: string
  pastIgns :: "string list option"
  playerEvents :: "string list"
  role :: "string option"
  mainAccount :: "string option"
  altAccounts :: "string list option"

record PlayerForm =
  form_id :: "string option"
  form_currentIgn :: "string option"
  form_uuid :: "string option"
  form_pastIgns :: "string list option"
  form_events :: "string list option"
  form_role :: "string option"
  form_mainAccount :: "string option"
  form_altAccounts :: "string list option"

definition initialPlayerForm :: PlayerForm where
  "initialPlayerForm =
     \<lparr>form_id = None, form_currentIgn = Some [], form_uuid = None, form_pastIgns = Some [],
      form_events = Some [], form_role = None, form_mainAccount = None,
      form_altAccounts = Some []\<rparr>"

record PlayerManagement =
  players :: "Player list"
  selectedPlayer :: "Player option"
  playerForm :: PlayerForm
  errorMsg :: string
  successMsg :: string

subsection \<open>Strings\<close>

text \<open>
  \<^verbatim>\<open>String.prototype.trim\<close> on the ASCII white space (tab, line feed, vertical tab, form
  feed, carriage return, space).
\<close>

definition isWhiteSpace :: "char \<Rightarrow> bool" where
  "isWhiteSpace c = (c \<in> set [CHR 0x09, CHR 0x0A, CHR 0x0B, CHR 0x0C, CHR 0x0D, CHR '' ''])"

definition trim :: "string \<Rightarrow> string" where
  "trim s = rev (dropWhile isWhiteSpace (rev (dropWhile isWhiteSpace s)))"

text \<open>
  \<^verbatim>\<open>String.prototype.toLowerCase\<close> is the language's own and maps the letters of every
  script, so it is a parameter \<open>toLowerCase\<close> of the model. On a string of ASCII
  characters it is the function \<open>asciiToLowerCase\<close>, which the examples use.
\<close>

definition lowerChar :: "char \<Rightarrow> char" where
  "lowerChar c =
     (case map_of (zip ''ABCDEFGHIJKLMNOPQRSTUVWXYZ'' ''abcdefghijklmnopqrstuvwxyz'') c of
        None \<Rightarrow> c
      | Some l \<Rightarrow> l)"

definition asciiToLowerCase :: "string \<Rightarrow> string" where
  "asciiToLowerCase s = map lowerChar s"

text \<open>
  \<^verbatim>\<open>/^[0-9a-f]{8}-[0-9a-f]{4}-[0-9a-f]{4}-[0-9a-f]{4}-[0-9a-f]{12}$/i\<close>: an anchored sequence
  of single-character classes, so a string matches when it has one character per class,
  each in its class. \<open>True\<close> is the class of hexadecimal digits of either case, \<open>False\<close> the
  hyphen.
\<close>

definition isHexDigit :: "char \<Rightarrow> bool" where
  "isHexDigit c = (c \<in> set ''0123456789abcdefABCDEF'')"

definition uuidClasses :: "bool list" where
  "uuidClasses =
     replicate 8 True @ [False] @ replicate 4 True @ [False] @ replicate 4 True @ [False]
       @ replicate 4 True @ [False] @ replicate 12 True"

definition uuidRegex_test :: "string \<Rightarrow> bool" where
  "uuidRegex_test s =
     list_all2 (\<lambda>hex c. if hex then isHexDigit c else c = CHR ''-'') uuidClasses s"

subsection \<open>Editing an alt account\<close>

text \<open>
  The predicate given to \<^verbatim>\<open>players.find\<close> in the \<^verbatim>\<open>onChange\<close> of an alt-account input:
  \<^verbatim>\<open>p.currentIgn.toLowerCase() === inputValue.toLowerCase() ||\<close>
  \<^verbatim>\<open>p.pastIgns?.some(ign => ign.toLowerCase() === inputValue.toLowerCase())\<close>.
\<close>

definition hasIgn :: "(string \<Rightarrow> string) \<Rightarrow> string \<Rightarrow> Player \<Rightarrow> bool" where
  "hasIgn toLowerCase inputValue p =
     (toLowerCase (currentIgn p) = toLowerCase inputValue \<or>
      (case pastIgns p of
         None \<Rightarrow> False
       | Some igns \<Rightarrow> list_ex (\<lambda>ign. toLowerCase ign = toLowerCase inputValue) igns))"

text \<open>The value the handler puts at the edited index.\<close>

definition altAccountEntry :: "(string \<Rightarrow> string) \<Rightarrow> Player list \<Rightarrow> string \<Rightarrow> string" where
  "altAccountEntry toLowerCase ps inputValue =
     (if uuidRegex_test inputValue then inputValue
      else (case find (hasIgn toLowerCase inputValue) ps of
              Some player \<Rightarrow> uuid player
            | None \<Rightarrow> inputValue))"

text \<open>
  The \<^verbatim>\<open>onChange\<close> handler of the input at \<open>index\<close>. The inputs are rendered by a \<^verbatim>\<open>map\<close> over
  \<^verbatim>\<open>playerForm.altAccounts\<close>, so a handler exists only for an index inside the list, and the
  assignment \<^verbatim>\<open>newAltAccounts[index] = ...\<close> replaces an element.
\<close>

definition altAccountOnChange ::
  "(string \<Rightarrow> string) \<Rightarrow> nat \<Rightarrow> string \<Rightarrow> PlayerManagement \<Rightarrow> PlayerManagement" where
  "altAccountOnChange toLowerCase index inputValue pg =
     (let newAltAccounts = (case form_altAccounts (playerForm pg) of None \<Rightarrow> [] | Some alts \<Rightarrow> alts);
          stored = newAltAccounts[index := altAccountEntry toLowerCase (players pg) inputValue]
      in pg\<lparr>playerForm := (playerForm pg)\<lparr>form_altAccounts := Some stored\<rparr>\<rparr>)"

text \<open>
  In the words of the claim, not of the code: a player's current in-game name, or one of
  the player's past in-game names, equals the candidate when both are put in lower case.
\<close>

abbreviation sameNameIgnoringCase :: "(string \<Rightarrow> string) \<Rightarrow> string \<Rightarrow> Player \<Rightarrow> bool" where
  "sameNameIgnoringCase toLowerCase candidate p \<equiv>
     (toLowerCase (currentIgn p) = toLowerCase candidate \<or>
      (\<exists>igns. pastIgns p = Some igns \<and>
         (\<exists>ign \<in> set igns. toLowerCase ign = toLowerCase candidate)))"

subsection \<open>Submitting the form\<close>

text \<open>
  The outside world of \<^verbatim>\<open>handleSubmit\<close>. A \<^verbatim>\<open>fetch\<close> of a profile either throws (also when
  reading the body throws), answers with a status that is not ok, or answers ok with a
  body whose \<^verbatim>\<open>name\<close> (or \<^verbatim>\<open>uuid\<close>) field may be missing. \<^verbatim>\<open>updateDoc\<close> (the database
  client) and \<^verbatim>\<open>updatePlayerData\<close> (\<^verbatim>\<open>lib/playerUtils\<close>, not among the source files) are
  parameters: each takes the database to a new one or throws; what is thrown is \<open>Some\<close>
  message for an \<^verbatim>\<open>Error\<close> and \<open>None\<close> for any other value.
\<close>

datatype fetch_result = Fetch_threw | Fetch_not_ok | Fetch_ok "string option"

type_synonym thrown = "string option"

record DocUpdate =
  upd_currentIgn :: string
  upd_uuid :: string
  upd_pastIgns :: "string list"
  upd_role :: "string option"

record 'db Services =
  profileByUuid :: "string \<Rightarrow> fetch_result"
  userByIgn :: "string \<Rightarrow> fetch_result"
  updateDoc :: "'db \<Rightarrow> string \<Rightarrow> DocUpdate \<Rightarrow> thrown + 'db"
  updatePlayerData :: "'db \<Rightarrow> string \<Rightarrow> string option \<Rightarrow> string list \<Rightarrow> thrown + 'db"

text \<open>The calls of the two writing functions that a submission makes, in order.\<close>

datatype writeCall =
  UpdateDoc string DocUpdate
  | UpdatePlayerData string "string option" "string list"

text \<open>
  \<^verbatim>\<open>!x?.trim()\<close>: the field is missing or blank. \<^verbatim>\<open>x?.trim() || ''\<close> and \<^verbatim>\<open>x?.trim() ?? ''\<close>
  both give the trimmed field, or the empty string when it is missing.
\<close>

definition blank :: "string option \<Rightarrow> bool" where
  "blank x = (case x of None \<Rightarrow> True | Some s \<Rightarrow> trim s = [])"

definition trimmedOrEmpty :: "string option \<Rightarrow> string" where
  "trimmedOrEmpty x = (case x of None \<Rightarrow> [] | Some s \<Rightarrow> trim s)"

text \<open>\<^verbatim>\<open>playerForm.role || null\<close>.\<close>

definition roleOrNull :: "string option \<Rightarrow> string option" where
  "roleOrNull r = (case r of None \<Rightarrow> None | Some s \<Rightarrow> if s = [] then None else Some s)"

definition cleanPastIgns :: "PlayerForm \<Rightarrow> string list" where
  "cleanPastIgns form =
     (case form_pastIgns form of None \<Rightarrow> [] | Some igns \<Rightarrow> filter (\<lambda>ign. trim ign \<noteq> []) igns)"

definition cleanAltAccounts :: "PlayerForm \<Rightarrow> string list" where
  "cleanAltAccounts form =
     (case form_altAccounts form of None \<Rightarrow> [] | Some alts \<Rightarrow> filter (\<lambda>alt. trim alt \<noteq> []) alts)"

text \<open>
  "If we have a UUID but no IGN, fetch the IGN": the form with the fetched name written
  into it, or the error message set before returning.
\<close>

definition fetchIgn :: "'db Services \<Rightarrow> PlayerForm \<Rightarrow> string + PlayerForm" where
  "fetchIgn sv form =
     (case form_uuid form of
        None \<Rightarrow> Inr form
      | Some u \<Rightarrow>
          if trim u \<noteq> [] \<and> blank (form_currentIgn form) then
            (case profileByUuid sv u of
               Fetch_ok name \<Rightarrow> Inr (form\<lparr>form_currentIgn := name\<rparr>)
             | Fetch_not_ok \<Rightarrow> Inl ''Invalid UUID provided''
             | Fetch_threw \<Rightarrow> Inl ''Failed to fetch player data from UUID'')
          else Inr form)"

text \<open>"If we have an IGN but no UUID, fetch the UUID".\<close>

definition fetchUuid :: "'db Services \<Rightarrow> PlayerForm \<Rightarrow> string + PlayerForm" where
  "fetchUuid sv form =
     (case form_currentIgn form of
        None \<Rightarrow> Inr form
      | Some n \<Rightarrow>
          if trim n \<noteq> [] \<and> blank (form_uuid form) then
            (case userByIgn sv (trim n) of
               Fetch_ok u \<Rightarrow> Inr (form\<lparr>form_uuid := u\<rparr>)
             | Fetch_not_ok \<Rightarrow> Inl ''Invalid IGN provided''
             | Fetch_threw \<Rightarrow> Inl ''Failed to fetch player data from IGN'')
          else Inr form)"

text \<open>
  The two checks of the alt accounts: \<^verbatim>\<open>cleanAltAccounts.includes(...)\<close> of the trimmed name
  or of the trimmed UUID, and the comparison of the length of \<^verbatim>\<open>[...new Set(cleanAltAccounts)]\<close>
  (the distinct entries) with the length of the list.
\<close>

definition includesSelf :: "PlayerForm \<Rightarrow> string list \<Rightarrow> bool" where
  "includesSelf form alts =
     (trimmedOrEmpty (form_currentIgn form) \<in> set alts \<or>
      trimmedOrEmpty (form_uuid form) \<in> set alts)"

definition uniqueAlts :: "string list \<Rightarrow> string list" where
  "uniqueAlts alts = rev (remdups (rev alts))"

text \<open>The messages of the two outer \<^verbatim>\<open>catch\<close> blocks.\<close>

definition saveFailed :: "thrown \<Rightarrow> string" where
  "saveFailed err =
     (case err of
        Some message \<Rightarrow> ''Failed to save player: '' @ message
      | None \<Rightarrow> ''Failed to save player. Please try again.'')"

definition altsFailed :: "thrown \<Rightarrow> string" where
  "altsFailed err =
     (case err of
        Some message \<Rightarrow> ''Failed to process alt accounts: '' @ message
      | None \<Rightarrow> ''Failed to process alt accounts'')"

text \<open>
  The last part of \<^verbatim>\<open>handleSubmit\<close>, reached when every check has passed: the update of
  the selected player's document, then \<^verbatim>\<open>updatePlayerData\<close>. The result is the page, the
  database and the calls made.
\<close>

definition writePlayer ::
  "'db Services \<Rightarrow> 'db \<Rightarrow> PlayerManagement \<Rightarrow> PlayerManagement \<times> 'db \<times> writeCall list" where
  "writePlayer sv db pg =
     (let form = playerForm pg;
          fields = \<lparr>upd_currentIgn = trimmedOrEmpty (form_currentIgn form),
                    upd_uuid = trimmedOrEmpty (form_uuid form),
                    upd_pastIgns = cleanPastIgns form,
                    upd_role = roleOrNull (form_role form)\<rparr>;
          first =
            (case selectedPlayer pg of
               None \<Rightarrow> Inr (db, [])
             | Some sel \<Rightarrow>
                 if player_id sel = [] then Inr (db, [])
                 else (case updateDoc sv db (player_id sel) fields of
                         Inl err \<Rightarrow> Inl (err, [UpdateDoc (player_id sel) fields])
                       | Inr db1 \<Rightarrow> Inr (db1, [UpdateDoc (player_id sel) fields])))
      in case first of
           Inl (err, calls) \<Rightarrow> (pg\<lparr>errorMsg := saveFailed err\<rparr>, db, calls)
         | Inr (db1, calls) \<Rightarrow>
             (let call = UpdatePlayerData (trimmedOrEmpty (form_currentIgn form))
                           (roleOrNull (form_role form)) (cleanAltAccounts form)
              in case updatePlayerData sv db1 (trimmedOrEmpty (form_currentIgn form))
                        (roleOrNull (form_role form)) (cleanAltAccounts form) of
                   Inl err \<Rightarrow> (pg\<lparr>errorMsg := altsFailed err\<rparr>, db1, calls @ [call])
                 | Inr db2 \<Rightarrow>
                     (pg\<lparr>successMsg := (if selectedPlayer pg \<noteq> None
                                           then ''Player updated successfully''
                                           else ''Player added successfully''),
                         playerForm := initialPlayerForm,
                         selectedPlayer := None\<rparr>,
                      db2, calls @ [call])))"

text \<open>
  \<^verbatim>\<open>handleSubmit\<close>. Every \<^verbatim>\<open>return\<close> after a \<^verbatim>\<open>setError\<close> is a branch that ends with the
  database as it was and no call made. The fetched name or UUID is assigned to the form
  object itself, so the form of the page holds it from then on.
\<close>

definition handleSubmit ::
  "'db Services \<Rightarrow> 'db \<Rightarrow> PlayerManagement \<Rightarrow> PlayerManagement \<times> 'db \<times> writeCall list" where
  "handleSubmit sv db pg0 =
     (let pg = pg0\<lparr>errorMsg := [], successMsg := []\<rparr>;
          form = playerForm pg
      in if blank (form_currentIgn form) \<and> blank (form_uuid form)
         then (pg\<lparr>errorMsg := ''Either Current IGN or UUID is required''\<rparr>, db, [])
         else
           (let alts = cleanAltAccounts form
            in case fetchIgn sv form of
                 Inl msg \<Rightarrow> (pg\<lparr>errorMsg := msg\<rparr>, db, [])
               | Inr form1 \<Rightarrow>
                   (case fetchUuid sv form1 of
                      Inl msg \<Rightarrow> (pg\<lparr>playerForm := form1, errorMsg := msg\<rparr>, db, [])
                    | Inr form2 \<Rightarrow>
                        if includesSelf form2 alts
                        then (pg\<lparr>playerForm := form2,
                                 errorMsg := ''A player cannot be their own alt account''\<rparr>, db, [])
                        else if length (uniqueAlts alts) \<noteq> length alts
                        then (pg\<lparr>playerForm := form2,
                                 errorMsg := ''Duplicate alt accounts are not allowed''\<rparr>, db, [])
                        else writePlayer sv db (pg\<lparr>playerForm := form2\<rparr>))))"

text \<open>
  The identity the form has once the missing half has been looked up, or the message of
  the lookup that failed.
\<close>

definition resolveIdentity :: "'db Services \<Rightarrow> PlayerForm \<Rightarrow> string + PlayerForm" where
  "resolveIdentity sv form =
     (case fetchIgn sv form of Inl msg \<Rightarrow> Inl msg | Inr form1 \<Rightarrow> fetchUuid sv form1)"

text \<open>
  The cleaned alt-account list of a form names the player itself: it contains the
  player's UUID or the player's current in-game name, as trimmed for storage.
\<close>

definition namesSelf :: "PlayerForm \<Rightarrow> bool" where
  "namesSelf form =
     ((case form_uuid form of None \<Rightarrow> False | Some u \<Rightarrow> trim u \<in> set (cleanAltAccounts form)) \<or>
      (case form_currentIgn form of None \<Rightarrow> False | Some n \<Rightarrow> trim n \<in> set (cleanAltAccounts form)))"

text \<open>The alt accounts of the form, \<^verbatim>\<open>playerForm.altAccounts || []\<close>.\<close>

definition altAccountsOf :: "PlayerManagement \<Rightarrow> string list" where
  "altAccountsOf pg = (case form_altAccounts (playerForm pg) of None \<Rightarrow> [] | Some alts \<Rightarrow> alts)"

subsection \<open>Example pages and services\<close>

text \<open>
  A page that holds a form with the given name, UUID and alt accounts and no selected
  player; a stored player; and two worlds whose database is a count of the writes done:
  one where every lookup answers with a status that is not ok, one where every lookup
  answers with a profile.
\<close>

definition exampleUuid :: string where
  "exampleUuid = ''069a79f4-44e9-4726-a5be-fca90e38aaf5''"

definition formOf :: "string option \<Rightarrow> string option \<Rightarrow> string list \<Rightarrow> PlayerForm" where
  "formOf ign u alts =
     initialPlayerForm\<lparr>form_currentIgn := ign, form_uuid := u, form_altAccounts := Some alts\<rparr>"

definition formPage :: "PlayerForm \<Rightarrow> PlayerManagement" where
  "formPage form =
     \<lparr>players = [], selectedPlayer = None, playerForm = form, errorMsg = [], successMsg = []\<rparr>"

definition examplePlayer :: Player where
  "examplePlayer =
     \<lparr>player_id = ''p1'', currentIgn = ''Bob'', uuid = exampleUuid,
      pastIgns = Some [''Bobby''], playerEvents = [], role = None, mainAccount = None,
      altAccounts = None\<rparr>"

definition lookupsRefused :: "nat Services" where
  "lookupsRefused =
     \<lparr>profileByUuid = (\<lambda>u. Fetch_not_ok),
      userByIgn = (\<lambda>n. Fetch_not_ok),
      updateDoc = (\<lambda>db i fields. Inr (Suc db)),
      updatePlayerData = (\<lambda>db n r alts. Inr (Suc db))\<rparr>"

definition lookupsAnswered :: "nat Services" where
  "lookupsAnswered =
     \<lparr>profileByUuid = (\<lambda>u. Fetch_ok (Some ''Bob'')),
      userByIgn = (\<lambda>n. Fetch_ok (Some exampleUuid)),
      updateDoc = (\<lambda>db i fields. Inr (Suc db)),
      updatePlayerData = (\<lambda>db n r alts. Inr (Suc db))\<rparr>"

text \<open>A second stored player, without past names, and a page that lists both players.\<close>

definition otherPlayer :: Player where
  "otherPlayer =
     \<lparr>player_id = ''p2'', currentIgn = ''Carol'', uuid = ''c06f8906-4c8a-4911-9c29-ea1dbd1aab82'',
      pastIgns = None, playerEvents = [], role = None, mainAccount = None,
      altAccounts = None\<rparr>"

definition twoPlayersPage :: PlayerManagement where
  "twoPlayersPage =
     (formPage (formOf (Some ''Al'') None [''x'', []]))\<lparr>players := [otherPlayer, examplePlayer]\<rparr>"

section \<open>Properties: category filter\<close>

lemma handleCategorySelect_inv:
  assumes "sel \<noteq> []" and "allId \<in> set sel \<Longrightarrow> sel = [allId]"
  shows "handleCategorySelect allId c sel \<noteq> [] \<and>
         (allId \<in> set (handleCategorySelect allId c sel) \<longrightarrow>
            handleCategorySelect allId c sel = [allId])"
  using assms by (auto simp: handleCategorySelect_def Let_def)

lemma selectMany_inv:
  assumes "sel \<noteq> []" and "allId \<in> set sel \<Longrightarrow> sel = [allId]"
  shows "selectMany allId clicks sel \<noteq> [] \<and>
         (allId \<in> set (selectMany allId clicks sel) \<longrightarrow> selectMany allId clicks sel = [allId])"
  using assms
proof (induction clicks arbitrary: sel)
  case Nil
  then show ?case by (simp add: selectMany_def)
next
  case (Cons c clicks)
  have step: "handleCategorySelect allId c sel \<noteq> [] \<and>
         (allId \<in> set (handleCategorySelect allId c sel) \<longrightarrow>
            handleCategorySelect allId c sel = [allId])"
    using Cons.prems by (intro handleCategorySelect_inv) auto
  have "selectMany allId (c # clicks) sel = selectMany allId clicks (handleCategorySelect allId c sel)"
    by (simp add: selectMany_def)
  with Cons.IH [of "handleCategorySelect allId c sel"] step show ?case by auto
qed

text \<open>
  C5. The handler is the transition function the spec describes: selecting the "all"
  sentinel yields the singleton sentinel selection from any state; selecting a specific
  category while the sentinel is in the selection yields the singleton of that category;
  toggling off the last remaining specific category (a selection that holds only that
  category) yields the sentinel selection; and selecting the sentinel after any selection
  of a specific category gives back the initial default.
\<close>

theorem handleCategorySelect_transitions:
  "handleCategorySelect allId allId prev = [allId] \<and>
   (c \<noteq> allId \<and> allId \<in> set prev \<longrightarrow> handleCategorySelect allId c prev = [c]) \<and>
   (c \<noteq> allId \<and> prev \<noteq> [] \<and> set prev = {c} \<longrightarrow> handleCategorySelect allId c prev = [allId]) \<and>
   handleCategorySelect allId allId (handleCategorySelect allId c prev) = initialSelectedCategories allId"
proof -
  have a: "handleCategorySelect allId allId xs = [allId]" for xs
    by (simp add: handleCategorySelect_def)
  have b: "handleCategorySelect allId c prev = [c]" if "c \<noteq> allId" "allId \<in> set prev"
    using that by (simp add: handleCategorySelect_def)
  have c: "handleCategorySelect allId c prev = [allId]" if "c \<noteq> allId" "set prev = {c}"
  proof -
    have "filter (\<lambda>i. i \<noteq> c) prev = []"
      using that(2) by (auto simp: filter_empty_conv)
    moreover have "allId \<notin> set prev" "c \<in> set prev"
      using that by auto
    ultimately show ?thesis
      by (simp add: handleCategorySelect_def)
  qed
  show ?thesis
    using a b c by (simp add: initialSelectedCategories_def)
qed

theorem handleCategorySelect_transitions_witness:
  "handleCategorySelect ''all'' ''all'' [''a'', ''b''] = [''all''] \<and>
   handleCategorySelect ''all'' ''a'' [''all''] = [''a''] \<and>
   handleCategorySelect ''all'' ''a'' [''a''] = [''all''] \<and>
   handleCategorySelect ''all'' ''all'' (handleCategorySelect ''all'' ''a'' [''a'', ''b''])
     = initialSelectedCategories ''all''"
  using handleCategorySelect_transitions [of "''all''" "[''a'', ''b'']" "''a''"]
        handleCategorySelect_transitions [of "''all''" "[''all'']" "''a''"]
        handleCategorySelect_transitions [of "''all''" "[''a'']" "''a''"]
  by simp

text \<open>
  C10. From the initial selection (the singleton sentinel), after any finite sequence of
  calls of the handler the selection is not empty, and it holds the sentinel only as the
  singleton selection: the sentinel never stands beside a specific category.
\<close>

theorem selectedCategories_invariant:
  "selectMany allId clicks (initialSelectedCategories allId) \<noteq> [] \<and>
   (allId \<in> set (selectMany allId clicks (initialSelectedCategories allId)) \<longrightarrow>
      selectMany allId clicks (initialSelectedCategories allId) = [allId])"
  by (rule selectMany_inv) (simp_all add: initialSelectedCategories_def)

theorem selectedCategories_invariant_witness:
  "selectMany ''all'' [''a'', ''b'', ''a'', ''all'', ''b'', ''b'']
     (initialSelectedCategories ''all'') = [''all''] \<and>
   selectMany ''all'' [''a'', ''b'', ''c'', ''a''] (initialSelectedCategories ''all'')
     = [''b'', ''c'']"
proof -
  have 1: "selectMany ''all'' [''a'', ''b'', ''a'', ''all'', ''b'', ''b'']
     (initialSelectedCategories ''all'') = [''all'']"
    using selectedCategories_invariant [of "''all''" "[''a'', ''b'', ''a'', ''all'', ''b'', ''b'']"]
    by (simp add: selectMany_def initialSelectedCategories_def handleCategorySelect_def)
  have 2: "selectMany ''all'' [''a'', ''b'', ''c'', ''a''] (initialSelectedCategories ''all'')
     = [''b'', ''c'']"
    by (simp add: selectMany_def initialSelectedCategories_def handleCategorySelect_def)
  show ?thesis using 1 2 by simp
qed

section \<open>Properties: releasing a drag\<close>

lemma Math_round_nearest: "\<bar>of_int (Math_round x) - x\<bar> \<le> 1 / 2"
  unfolding Math_round_def by linarith

lemma handleMouseUp_far_right:
  "handleMouseUp exampleProps exampleDrag 9000 =
     (exampleDrag\<lparr>isDragging := False\<rparr>, Some (''e1'', 19, 300))"
  by (simp add: handleMouseUp_def boundedColumn_def Let_def baseOffset_def columnWidth_def
      exampleProps_def exampleDrag_def Math_round_def)

lemma boundedColumn_example: "boundedColumn exampleDrag 775 = 3"
  by (simp add: boundedColumn_def Let_def baseOffset_def columnWidth_def exampleDrag_def
      Math_round_def)

text \<open>
  C3. Whenever a release passes a column to \<^verbatim>\<open>onUpdateColumn\<close>, that column is the release
  position (pointer x minus the grab offset minus the base offset of 210, in units of the
  column width 220) rounded to the nearest integer and clamped into 0..19; the rounding
  is within one half of the position, and the column lies between 0 and 19 inclusive,
  whatever the release coordinate.
\<close>

theorem handleMouseUp_column_bounded:
  "handleMouseUp props st clientX = (st', Some (eid, c, p)) \<Longrightarrow>
     c = max 0 (min (Math_round ((clientX - startX st - 210) / 220)) 19) \<and>
     \<bar>of_int (Math_round ((clientX - startX st - 210) / 220))
        - (clientX - startX st - 210) / 220\<bar> \<le> 1 / 2 \<and>
     0 \<le> c \<and> c \<le> 19"
  using Math_round_nearest [of "(clientX - startX st - 210) / 220"]
  by (auto simp: handleMouseUp_def boundedColumn_def Let_def baseOffset_def columnWidth_def
      split: if_splits)

theorem handleMouseUp_column_bounded_witness:
  "handleMouseUp exampleProps exampleDrag 9000 =
     (exampleDrag\<lparr>isDragging := False\<rparr>, Some (''e1'', 19, 300)) \<and>
   (19::int) = max 0 (min (Math_round ((9000 - startX exampleDrag - 210) / 220)) 19) \<and>
   (0::int) \<le> 19"
  using handleMouseUp_column_bounded [OF handleMouseUp_far_right] handleMouseUp_far_right
  by simp

text \<open>
  C4. While an event is being dragged, a release over column \<open>c\<close> (the bounded column of
  the release position) calls \<^verbatim>\<open>onUpdateColumn\<close> with exactly that event's id, column \<open>c\<close>
  and the event's position, or makes no call when \<open>c\<close> is the column the event is already
  in. The stored column of every other event is unchanged; when the column changes, a
  later load of the dragged event gives \<open>c\<close>; and when the column shown was the stored one,
  a later load gives \<open>c\<close> in either case.
\<close>

theorem release_commits_only_dragged:
  assumes "isDragging st"
  shows "(\<forall>call. snd (handleMouseUp props st clientX) = Some call \<longrightarrow>
            call = (event_id props, boundedColumn st clientX, position props)) \<and>
         (\<forall>other. other \<noteq> event_id props \<longrightarrow>
            loadColumn (release props st clientX stored) other = loadColumn stored other) \<and>
         (boundedColumn st clientX \<noteq> column props \<longrightarrow>
            snd (handleMouseUp props st clientX) \<noteq> None \<and>
            loadColumn (release props st clientX stored) (event_id props)
              = Some (boundedColumn st clientX)) \<and>
         (boundedColumn st clientX = column props \<longrightarrow> release props st clientX stored = stored) \<and>
         (loadColumn stored (event_id props) = Some (column props) \<longrightarrow>
            loadColumn (release props st clientX stored) (event_id props)
              = Some (boundedColumn st clientX))"
  using assms
  by (auto simp: handleMouseUp_def release_def onUpdateColumn_def loadColumn_def)

theorem release_commits_only_dragged_witness:
  "isDragging exampleDrag \<and>
   snd (handleMouseUp exampleProps exampleDrag 775) = Some (''e1'', 3, 300) \<and>
   loadColumn (release exampleProps exampleDrag 775 exampleStored) ''e1'' = Some 3 \<and>
   loadColumn (release exampleProps exampleDrag 775 exampleStored) ''e2'' = Some 5"
proof -
  have d: "isDragging exampleDrag"
    by (simp add: exampleDrag_def)
  have s: "loadColumn exampleStored ''e2'' = Some 5"
    by (simp add: loadColumn_def exampleStored_def)
  have c: "snd (handleMouseUp exampleProps exampleDrag 775) = Some (''e1'', 3, 300)"
    by (simp add: handleMouseUp_def boundedColumn_example d) (simp add: exampleProps_def)
  show ?thesis
    using release_commits_only_dragged [OF d, of exampleProps 775 exampleStored]
      boundedColumn_example d s c
    by (simp add: exampleProps_def)
qed

section \<open>Properties: the events subscription\<close>

text \<open>
  C8. The error callback of the events subscription leaves the event list, the selected
  categories and the zoom as they were and sets the error message; the page then shows
  that message together with the events it held before.
\<close>

theorem onEventsError_keeps_events:
  "events (onEventsError st) = events st \<and>
   selectedCategories (onEventsError st) = selectedCategories st \<and>
   yearSpacing (onEventsError st) = yearSpacing st \<and>
   error (onEventsError st) = Some ''Failed to load updates. Please refresh the page.'' \<and>
   render (onEventsError st) =
     Some \<lparr>banner = Some ''Failed to load updates. Please refresh the page.'',
           shownEvents = events st,
           shownCategories = selectedCategories st,
           shownYearSpacing = yearSpacing st\<rparr>"
  by (simp add: onEventsError_def render_def)

lemma mset_insertFromRight: "mset (insertFromRight cmp x ys) = add_mset x (mset ys)"
  by (induction ys) auto

lemma mset_sortLoop: "mset (sortLoop cmp placed xs) = mset placed + mset xs"
  by (induction xs arbitrary: placed) (auto simp: mset_insertFromRight)

lemma mset_Array_sort: "mset (Array_sort cmp xs) = mset xs"
  by (simp add: Array_sort_def mset_sortLoop)

lemma set_insertFromRight: "set (insertFromRight cmp x ys) = insert x (set ys)"
  by (induction ys) auto

text \<open>
  Where the comparator is positive exactly when its first argument has the greater key,
  inserting keeps the reversed prefix in descending order of key.
\<close>

lemma insertFromRight_descending:
  assumes "\<And>a b. a \<in> insert x (set ys) \<Longrightarrow> b \<in> insert x (set ys) \<Longrightarrow>
             isPositive (cmp a b) = (key b < key a)"
    and "sorted_wrt (\<lambda>a b. key b \<le> (key a :: int)) ys"
  shows "sorted_wrt (\<lambda>a b. key b \<le> key a) (insertFromRight cmp x ys)"
  using assms
proof (induction ys)
  case Nil
  then show ?case by simp
next
  case (Cons y ys)
  show ?case
  proof (cases "isPositive (cmp y x)")
    case True
    then have lt: "key x < key y" using Cons.prems(1) [of y x] by simp
    have ih: "sorted_wrt (\<lambda>a b. key b \<le> key a) (insertFromRight cmp x ys)"
      using Cons.prems by (intro Cons.IH) auto
    have "\<forall>b \<in> set (insertFromRight cmp x ys). key b \<le> key y"
      using Cons.prems(2) lt by (auto simp: set_insertFromRight)
    with ih True show ?thesis by simp
  next
    case False
    then have le: "key y \<le> key x" using Cons.prems(1) [of y x] by simp
    have "\<forall>b \<in> set ys. key b \<le> key y" using Cons.prems(2) by simp
    with le have "\<forall>b \<in> set (y # ys). key b \<le> key x" by auto
    with False Cons.prems(2) show ?thesis by simp
  qed
qed

lemma sortLoop_ascending:
  assumes "\<And>a b. a \<in> set placed \<union> set xs \<Longrightarrow> b \<in> set placed \<union> set xs \<Longrightarrow>
             isPositive (cmp a b) = (key b < key a)"
    and "sorted_wrt (\<lambda>a b. key b \<le> (key a :: int)) placed"
  shows "sorted_wrt (\<lambda>a b. key a \<le> key b) (sortLoop cmp placed xs)"
  using assms
proof (induction xs arbitrary: placed)
  case Nil
  then show ?case by (simp add: sorted_wrt_rev)
next
  case (Cons x xs)
  have "sorted_wrt (\<lambda>a b. key b \<le> key a) (insertFromRight cmp x placed)"
    using Cons.prems by (intro insertFromRight_descending) auto
  moreover have "set (insertFromRight cmp x placed) \<union> set xs = set placed \<union> set (x # xs)"
    by (auto simp: set_insertFromRight)
  ultimately have
    "sorted_wrt (\<lambda>a b. key a \<le> key b) (sortLoop cmp (insertFromRight cmp x placed) xs)"
    using Cons.prems(1) by (intro Cons.IH) auto
  then show ?case by simp
qed

lemma Array_sort_ascending:
  assumes "\<And>a b. a \<in> set xs \<Longrightarrow> b \<in> set xs \<Longrightarrow>
             isPositive (cmp a b) = (key b < (key a :: int))"
  shows "sorted_wrt (\<lambda>a b. key a \<le> key b) (Array_sort cmp xs)"
  unfolding Array_sort_def using assms by (intro sortLoop_ascending) auto

lemma compareByDate_valid:
  assumes "eventTime getTime a \<noteq> None" "eventTime getTime b \<noteq> None"
  shows "isPositive (compareByDate getTime a b)
           = (the (eventTime getTime b) < the (eventTime getTime a))"
  using assms by (auto simp: compareByDate_def isPositive_def)

lemma sortedByDate_Array_sort:
  assumes "\<forall>e \<in> set es. eventTime getTime e \<noteq> None"
  shows "sortedByDate getTime (Array_sort (compareByDate getTime) es)"
proof -
  let ?key = "\<lambda>e. the (eventTime getTime e)"
  let ?out = "Array_sort (compareByDate getTime) es"
  have s: "sorted_wrt (\<lambda>a b. ?key a \<le> ?key b) ?out"
    using assms by (intro Array_sort_ascending compareByDate_valid) auto
  have "set ?out = set es"
    using mset_Array_sort [of "compareByDate getTime" es] by (metis set_mset_mset)
  with assms have v: "\<forall>e \<in> set ?out. eventTime getTime e \<noteq> None" by simp
  have "sorted_wrt (\<lambda>a b. timeLe (eventTime getTime a) (eventTime getTime b)) ?out"
    by (rule sorted_wrt_mono_rel [OF _ s])
      (use v in \<open>auto simp: timeLe_def split: option.splits\<close>)
  then show ?thesis by (simp add: sortedByDate_def)
qed

lemma exampleDoc_time:
  "eventTime exampleGetTime (toEvent (exampleDoc i d)) = exampleGetTime (Some d)"
  by (simp add: eventTime_def toEvent_def exampleDoc_def)

lemma exampleDocs_kept:
  "events (onEventsSnapshot exampleGetTime exampleDocs (examplePage [])) = map toEvent exampleDocs"
  by (simp add: onEventsSnapshot_def Let_def Array_sort_def exampleDocs_def compareByDate_def
      exampleDoc_time isPositive_def exampleGetTime_def)

lemma datedDocs_sorted:
  "events (onEventsSnapshot exampleGetTime datedDocs (examplePage [])) =
     [toEvent (exampleDoc ''c'' ''2010-01-01''), toEvent (exampleDoc ''a'' ''2020-01-01'')]"
  by (simp add: onEventsSnapshot_def Let_def Array_sort_def datedDocs_def compareByDate_def
      exampleDoc_time isPositive_def exampleGetTime_def)

text \<open>
  C7, as stated, fails: a snapshot of three documents dated 2020-01-01, \<^verbatim>\<open>unknown\<close> and
  2010-01-01 leaves the event of 2020 before the event of 2010. The comparator gives NaN
  for the first and the second event and for the second and the third, so the sort finds
  no neighbouring pair out of order and leaves the array as it is.
\<close>

theorem onEventsSnapshot_unsorted_counterexample:
  "events (onEventsSnapshot exampleGetTime exampleDocs (examplePage [])) = map toEvent exampleDocs \<and>
   \<not> sortedByDate exampleGetTime
       (events (onEventsSnapshot exampleGetTime exampleDocs (examplePage [])))"
  unfolding exampleDocs_kept
  by (simp add: exampleDocs_def sortedByDate_def exampleDoc_time timeLe_def exampleGetTime_def)

text \<open>
  C7, amended. Every snapshot replaces the whole event list: the new list holds exactly
  the events mapped from the documents of the snapshot, whatever the list held before.
  When the date of every event of the snapshot is a valid time, the new list is in
  non-decreasing order of date.
\<close>

theorem onEventsSnapshot_replaces_sorted:
  "mset (events (onEventsSnapshot getTime docs st)) = mset (map toEvent docs) \<and>
   events (onEventsSnapshot getTime docs st) = events (onEventsSnapshot getTime docs st') \<and>
   ((\<forall>e \<in> set (map toEvent docs). eventTime getTime e \<noteq> None) \<longrightarrow>
      sortedByDate getTime (events (onEventsSnapshot getTime docs st)))"
  using sortedByDate_Array_sort [of "map toEvent docs" getTime]
  by (simp add: onEventsSnapshot_def Let_def mset_Array_sort)

theorem onEventsSnapshot_replaces_sorted_witness:
  "eventTime exampleGetTime (toEvent (exampleDoc ''a'' ''2020-01-01'')) = Some 1577836800000 \<and>
   eventTime exampleGetTime (toEvent (exampleDoc ''c'' ''2010-01-01'')) = Some 1262304000000 \<and>
   events (onEventsSnapshot exampleGetTime datedDocs (examplePage [])) =
     [toEvent (exampleDoc ''c'' ''2010-01-01''), toEvent (exampleDoc ''a'' ''2020-01-01'')] \<and>
   sortedByDate exampleGetTime (events (onEventsSnapshot exampleGetTime datedDocs (examplePage [])))"
proof -
  have v: "\<forall>e \<in> set (map toEvent datedDocs). eventTime exampleGetTime e \<noteq> None"
    by (simp add: datedDocs_def exampleDoc_time exampleGetTime_def)
  have "sortedByDate exampleGetTime
          (events (onEventsSnapshot exampleGetTime datedDocs (examplePage [])))"
    using onEventsSnapshot_replaces_sorted [of exampleGetTime datedDocs "examplePage []"] v
    by blast
  then show ?thesis
    using datedDocs_sorted by (simp add: exampleDoc_time exampleGetTime_def)
qed

section \<open>Properties: submitting the player form\<close>

lemma trim_Nil: "trim [] = []"
  by (simp add: trim_def)

lemma empty_notin_cleanAltAccounts: "[] \<notin> set (cleanAltAccounts form)"
  by (auto simp: cleanAltAccounts_def trim_Nil split: option.splits)

lemma uniqueAlts_length: "(length (uniqueAlts alts) \<noteq> length alts) = (\<not> distinct alts)"
proof -
  have "(length (remdups (rev alts)) = length (rev alts)) = distinct (rev alts)"
    by (simp only: length_remdups_eq remdups_id_iff_distinct)
  then show ?thesis by (simp add: uniqueAlts_def)
qed

lemma fetchIgn_keeps:
  assumes "fetchIgn sv form = Inr form1"
  shows "form_altAccounts form1 = form_altAccounts form \<and> form_uuid form1 = form_uuid form \<and>
         (\<not> blank (form_currentIgn form) \<longrightarrow> form_currentIgn form1 = form_currentIgn form)"
  using assms by (auto simp: fetchIgn_def split: option.splits if_splits fetch_result.splits)

lemma fetchUuid_keeps:
  assumes "fetchUuid sv form = Inr form2"
  shows "form_altAccounts form2 = form_altAccounts form \<and>
         form_currentIgn form2 = form_currentIgn form \<and>
         (\<not> blank (form_uuid form) \<longrightarrow> form_uuid form2 = form_uuid form)"
  using assms by (auto simp: fetchUuid_def split: option.splits if_splits fetch_result.splits)

lemma resolveIdentity_keeps:
  assumes "resolveIdentity sv form = Inr form2"
  shows "form_altAccounts form2 = form_altAccounts form \<and>
         (\<not> blank (form_currentIgn form) \<longrightarrow> form_currentIgn form2 = form_currentIgn form) \<and>
         (\<not> blank (form_uuid form) \<longrightarrow> form_uuid form2 = form_uuid form)"
proof -
  from assms obtain form1 where 1: "fetchIgn sv form = Inr form1" and 2: "fetchUuid sv form1 = Inr form2"
    by (auto simp: resolveIdentity_def split: sum.splits)
  show ?thesis
    using fetchIgn_keeps [OF 1] fetchUuid_keeps [OF 2] by auto
qed

lemma cleanAltAccounts_cong:
  "form_altAccounts f = form_altAccounts g \<Longrightarrow> cleanAltAccounts f = cleanAltAccounts g"
  by (simp add: cleanAltAccounts_def)

lemma includesSelf_namesSelf:
  "includesSelf form (cleanAltAccounts form) = namesSelf form"
  using empty_notin_cleanAltAccounts [of form]
  by (auto simp: includesSelf_def namesSelf_def trimmedOrEmpty_def split: option.splits)

lemma namesSelf_not_blank:
  assumes "namesSelf form"
  shows "\<not> (blank (form_currentIgn form) \<and> blank (form_uuid form))"
  using assms empty_notin_cleanAltAccounts [of form]
  by (auto simp: namesSelf_def blank_def split: option.splits)

lemma namesSelf_resolved:
  assumes "namesSelf form" and "resolveIdentity sv form = Inr form2"
  shows "namesSelf form2"
proof -
  note k = resolveIdentity_keeps [OF assms(2)]
  have c: "cleanAltAccounts form2 = cleanAltAccounts form"
    using k by (intro cleanAltAccounts_cong) simp
  from assms(1) consider
    (u) u where "form_uuid form = Some u" "trim u \<in> set (cleanAltAccounts form)"
    | (n) n where "form_currentIgn form = Some n" "trim n \<in> set (cleanAltAccounts form)"
    by (auto simp: namesSelf_def split: option.splits)
  then show ?thesis
  proof cases
    case u
    then have "\<not> blank (form_uuid form)"
      using empty_notin_cleanAltAccounts [of form] by (auto simp: blank_def)
    with k have "form_uuid form2 = Some u" using u by simp
    with u c show ?thesis by (simp add: namesSelf_def)
  next
    case n
    then have "\<not> blank (form_currentIgn form)"
      using empty_notin_cleanAltAccounts [of form] by (auto simp: blank_def)
    with k have "form_currentIgn form2 = Some n" using n by simp
    with n c show ?thesis by (simp add: namesSelf_def)
  qed
qed

lemma resolveIdentity_messages:
  assumes "resolveIdentity sv form = Inl msg"
  shows "msg \<in> set [''Invalid UUID provided'', ''Failed to fetch player data from UUID'',
                     ''Invalid IGN provided'', ''Failed to fetch player data from IGN'']"
  using assms
  by (auto simp: resolveIdentity_def fetchIgn_def fetchUuid_def
      split: sum.splits option.splits if_splits fetch_result.splits)

text \<open>
  \<^verbatim>\<open>handleSubmit\<close> as one case distinction over the lookups and the two checks, up to the
  writes.
\<close>

lemma handleSubmit_cases:
  "handleSubmit sv db pg =
     (let pg1 = pg\<lparr>errorMsg := [], successMsg := []\<rparr>; form = playerForm pg
      in if blank (form_currentIgn form) \<and> blank (form_uuid form)
         then (pg1\<lparr>errorMsg := ''Either Current IGN or UUID is required''\<rparr>, db, [])
         else (case resolveIdentity sv form of
                 Inl msg \<Rightarrow>
                   (pg1\<lparr>playerForm := (case fetchIgn sv form of Inl _ \<Rightarrow> form | Inr form1 \<Rightarrow> form1),
                        errorMsg := msg\<rparr>, db, [])
               | Inr form2 \<Rightarrow>
                   if namesSelf form2
                   then (pg1\<lparr>playerForm := form2,
                             errorMsg := ''A player cannot be their own alt account''\<rparr>, db, [])
                   else if \<not> distinct (cleanAltAccounts form)
                   then (pg1\<lparr>playerForm := form2,
                             errorMsg := ''Duplicate alt accounts are not allowed''\<rparr>, db, [])
                   else writePlayer sv db (pg1\<lparr>playerForm := form2\<rparr>)))"
proof -
  have inc: "includesSelf form2 (cleanAltAccounts (playerForm pg)) = namesSelf form2"
    if "resolveIdentity sv (playerForm pg) = Inr form2" for form2
    using resolveIdentity_keeps [OF that] includesSelf_namesSelf [of form2]
      cleanAltAccounts_cong [of form2 "playerForm pg"] by simp
  show ?thesis
  proof (cases "resolveIdentity sv (playerForm pg)")
    case (Inl msg)
    then show ?thesis
      by (auto simp: handleSubmit_def Let_def resolveIdentity_def split: sum.splits)
  next
    case (Inr form2)
    then show ?thesis
      using inc [OF Inr]
      by (auto simp: handleSubmit_def Let_def resolveIdentity_def uniqueAlts_length split: sum.splits)
  qed
qed

lemma bob_names_self: "namesSelf (formOf (Some ''Bob'') None [''Bob''])"
  by (simp add: namesSelf_def formOf_def initialPlayerForm_def cleanAltAccounts_def trim_def
      isWhiteSpace_def)

lemma bob_lookup_refused:
  "errorMsg (fst (handleSubmit lookupsRefused 0 (formPage (formOf (Some ''Bob'') None [''Bob'']))))
     = ''Invalid IGN provided''"
  by (simp add: handleSubmit_def Let_def formPage_def formOf_def initialPlayerForm_def
      blank_def fetchIgn_def fetchUuid_def lookupsRefused_def trim_def isWhiteSpace_def)

text \<open>
  C1, as stated, fails: the form of a new player named Bob, without UUID, lists Bob among
  its alt accounts, and the lookup of the UUID is refused; the submission ends with the
  message of the lookup, not with the message about the player's own alt account.
\<close>

theorem handleSubmit_self_alt_counterexample:
  "namesSelf (formOf (Some ''Bob'') None [''Bob'']) \<and>
   errorMsg (fst (handleSubmit lookupsRefused 0 (formPage (formOf (Some ''Bob'') None [''Bob'']))))
     = ''Invalid IGN provided'' \<and>
   errorMsg (fst (handleSubmit lookupsRefused 0 (formPage (formOf (Some ''Bob'') None [''Bob'']))))
     \<noteq> ''A player cannot be their own alt account''"
  using bob_names_self bob_lookup_refused by simp

lemma resolveIdentity_blank:
  assumes "blank (form_currentIgn form)" and "blank (form_uuid form)"
  shows "resolveIdentity sv form = Inr form"
  using assms
  by (auto simp: resolveIdentity_def fetchIgn_def fetchUuid_def blank_def split: option.splits)

lemma bob_uuid_looked_up:
  "resolveIdentity lookupsAnswered (formOf (Some ''Bob'') None [exampleUuid])
     = Inr (formOf (Some ''Bob'') (Some exampleUuid) [exampleUuid])"
  by (simp add: resolveIdentity_def fetchIgn_def fetchUuid_def formOf_def initialPlayerForm_def
      blank_def trim_def isWhiteSpace_def lookupsAnswered_def)

lemma bob_uuid_names_self:
  "namesSelf (formOf (Some ''Bob'') (Some exampleUuid) [exampleUuid])"
  by (simp add: namesSelf_def formOf_def initialPlayerForm_def cleanAltAccounts_def trim_def
      isWhiteSpace_def exampleUuid_def)

lemma bob_uuid_not_in_form:
  "\<not> namesSelf (formOf (Some ''Bob'') None [exampleUuid])"
  by (simp add: namesSelf_def formOf_def initialPlayerForm_def cleanAltAccounts_def trim_def
      isWhiteSpace_def exampleUuid_def)

text \<open>
  C1, amended. When the cleaned alt-account list of the submitted form contains the
  player's own UUID or own current in-game name (as trimmed for storage), be it given in
  the form or found by the lookup of the missing one, the submission makes no call of
  \<^verbatim>\<open>updateDoc\<close> or \<^verbatim>\<open>updatePlayerData\<close>, leaves the database as it was, sets no success
  message and keeps the selected player. It sets the error "A player cannot be their own
  alt account", unless the lookup of a missing name or UUID fails first: then the error
  is the message of that lookup.
\<close>

theorem handleSubmit_self_alt_rejected:
  assumes "handleSubmit sv db pg = (pg', db', calls)"
    and "namesSelf (playerForm pg) \<or>
         (\<exists>form2. resolveIdentity sv (playerForm pg) = Inr form2 \<and> namesSelf form2)"
  shows "calls = [] \<and> db' = db \<and> successMsg pg' = [] \<and>
         selectedPlayer pg' = selectedPlayer pg \<and>
         errorMsg pg' =
           (case resolveIdentity sv (playerForm pg) of
              Inl msg \<Rightarrow> msg
            | Inr form2 \<Rightarrow> ''A player cannot be their own alt account'') \<and>
         errorMsg pg' \<in> set [''A player cannot be their own alt account'',
              ''Invalid UUID provided'', ''Failed to fetch player data from UUID'',
              ''Invalid IGN provided'', ''Failed to fetch player data from IGN'']"
proof (cases "resolveIdentity sv (playerForm pg)")
  case (Inl msg)
  with assms(2) have n: "namesSelf (playerForm pg)" by simp
  from assms(1) namesSelf_not_blank [OF n] resolveIdentity_messages [OF Inl] Inl
  show ?thesis
    by (auto simp: handleSubmit_cases Let_def)
next
  case (Inr form2)
  have n2: "namesSelf form2"
    using assms(2) Inr namesSelf_resolved [of "playerForm pg" sv form2] by auto
  have nb: "\<not> (blank (form_currentIgn (playerForm pg)) \<and> blank (form_uuid (playerForm pg)))"
  proof
    assume b: "blank (form_currentIgn (playerForm pg)) \<and> blank (form_uuid (playerForm pg))"
    then have "resolveIdentity sv (playerForm pg) = Inr (playerForm pg)"
      by (simp add: resolveIdentity_blank)
    with Inr n2 have "namesSelf (playerForm pg)" by simp
    with b namesSelf_not_blank show False by blast
  qed
  from assms(1) nb n2 Inr show ?thesis
    by (auto simp: handleSubmit_cases Let_def)
qed

theorem handleSubmit_self_alt_rejected_witness:
  "\<not> namesSelf (formOf (Some ''Bob'') None [exampleUuid]) \<and>
   resolveIdentity lookupsAnswered (formOf (Some ''Bob'') None [exampleUuid])
     = Inr (formOf (Some ''Bob'') (Some exampleUuid) [exampleUuid]) \<and>
   namesSelf (formOf (Some ''Bob'') (Some exampleUuid) [exampleUuid]) \<and>
   snd (snd (handleSubmit lookupsAnswered 0
               (formPage (formOf (Some ''Bob'') None [exampleUuid])))) = [] \<and>
   fst (snd (handleSubmit lookupsAnswered 0
               (formPage (formOf (Some ''Bob'') None [exampleUuid])))) = 0 \<and>
   errorMsg (fst (handleSubmit lookupsAnswered 0
                    (formPage (formOf (Some ''Bob'') None [exampleUuid]))))
     = ''A player cannot be their own alt account'' \<and>
   namesSelf (formOf (Some ''Bob'') (Some exampleUuid) [''Bob'']) \<and>
   snd (snd (handleSubmit lookupsRefused 0
               (formPage (formOf (Some ''Bob'') (Some exampleUuid) [''Bob''])))) = [] \<and>
   errorMsg (fst (handleSubmit lookupsRefused 0
                    (formPage (formOf (Some ''Bob'') (Some exampleUuid) [''Bob'']))))
     = ''A player cannot be their own alt account''"
proof -
  let ?looked = "formOf (Some ''Bob'') None [exampleUuid]"
  let ?given = "formOf (Some ''Bob'') (Some exampleUuid) [''Bob'']"
  have f: "playerForm (formPage form) = form" for form
    by (simp add: formPage_def)
  have p: "handleSubmit sv db pg =
             (fst (handleSubmit sv db pg), fst (snd (handleSubmit sv db pg)),
              snd (snd (handleSubmit sv db pg)))"
    for sv :: "nat Services" and db pg
    by simp
  have h1: "namesSelf (playerForm (formPage ?looked)) \<or>
            (\<exists>form2. resolveIdentity lookupsAnswered (playerForm (formPage ?looked)) = Inr form2 \<and>
               namesSelf form2)"
    using bob_uuid_looked_up bob_uuid_names_self by (simp add: f)
  have g: "namesSelf ?given"
    by (simp add: namesSelf_def formOf_def initialPlayerForm_def cleanAltAccounts_def trim_def
        isWhiteSpace_def)
  have r: "resolveIdentity lookupsRefused ?given = Inr ?given"
    by (simp add: resolveIdentity_def fetchIgn_def fetchUuid_def formOf_def
        initialPlayerForm_def blank_def trim_def isWhiteSpace_def exampleUuid_def)
  have h2: "namesSelf (playerForm (formPage ?given)) \<or>
            (\<exists>form2. resolveIdentity lookupsRefused (playerForm (formPage ?given)) = Inr form2 \<and>
               namesSelf form2)"
    using g by (simp add: f)
  show ?thesis
    using handleSubmit_self_alt_rejected [OF p h1] handleSubmit_self_alt_rejected [OF p h2]
      bob_uuid_not_in_form bob_uuid_looked_up bob_uuid_names_self g r
    by (simp add: f)
qed

lemma bobs_not_distinct:
  "\<not> distinct (cleanAltAccounts (formOf (Some ''Bob'') (Some exampleUuid) [''Bob'', ''Bob'']))"
  by (simp add: formOf_def initialPlayerForm_def cleanAltAccounts_def trim_def isWhiteSpace_def)

lemma bobs_self_alt:
  "errorMsg (fst (handleSubmit lookupsAnswered 0
       (formPage (formOf (Some ''Bob'') (Some exampleUuid) [''Bob'', ''Bob'']))))
     = ''A player cannot be their own alt account''"
  by (simp add: handleSubmit_def Let_def formPage_def formOf_def initialPlayerForm_def
      blank_def fetchIgn_def fetchUuid_def includesSelf_def trimmedOrEmpty_def
      cleanAltAccounts_def trim_def isWhiteSpace_def exampleUuid_def)

text \<open>
  C2, as stated, fails: a form that lists the player's own name twice among the alt
  accounts is rejected with the message about the player's own alt account, not with the
  message about duplicates.
\<close>

theorem handleSubmit_duplicate_alts_counterexample:
  "\<not> distinct (cleanAltAccounts (formOf (Some ''Bob'') (Some exampleUuid) [''Bob'', ''Bob''])) \<and>
   errorMsg (fst (handleSubmit lookupsAnswered 0
       (formPage (formOf (Some ''Bob'') (Some exampleUuid) [''Bob'', ''Bob'']))))
     = ''A player cannot be their own alt account'' \<and>
   errorMsg (fst (handleSubmit lookupsAnswered 0
       (formPage (formOf (Some ''Bob'') (Some exampleUuid) [''Bob'', ''Bob'']))))
     \<noteq> ''Duplicate alt accounts are not allowed''"
  using bobs_not_distinct bobs_self_alt by simp

text \<open>
  C2, amended. When the cleaned alt-account list of the submitted form contains two
  equal entries, the submission makes no call of \<^verbatim>\<open>updateDoc\<close> or \<^verbatim>\<open>updatePlayerData\<close>,
  leaves the database as it was, sets no success message, and sets an error message.
  The message is "Duplicate alt accounts are not allowed" when the earlier checks pass:
  a name or a UUID is given, the lookup of a missing one succeeds, and the list does not
  contain the player's own name or UUID. Otherwise it is the message of the first check
  that fails.
\<close>

theorem handleSubmit_duplicate_alts_rejected:
  assumes "\<not> distinct (cleanAltAccounts (playerForm pg))"
    and "handleSubmit sv db pg = (pg', db', calls)"
  shows "calls = [] \<and> db' = db \<and> successMsg pg' = [] \<and>
         selectedPlayer pg' = selectedPlayer pg \<and>
         errorMsg pg' =
           (if blank (form_currentIgn (playerForm pg)) \<and> blank (form_uuid (playerForm pg))
            then ''Either Current IGN or UUID is required''
            else (case resolveIdentity sv (playerForm pg) of
                    Inl msg \<Rightarrow> msg
                  | Inr form2 \<Rightarrow>
                      if namesSelf form2 then ''A player cannot be their own alt account''
                      else ''Duplicate alt accounts are not allowed'')) \<and>
         errorMsg pg' \<noteq> []"
proof (cases "resolveIdentity sv (playerForm pg)")
  case (Inl msg)
  with assms resolveIdentity_messages [OF Inl]
  show ?thesis
    by (auto simp: handleSubmit_cases Let_def split: if_splits)
next
  case (Inr form2)
  with assms
  show ?thesis
    by (auto simp: handleSubmit_cases Let_def split: if_splits)
qed

theorem handleSubmit_duplicate_alts_rejected_witness:
  "\<not> distinct (cleanAltAccounts (formOf (Some ''Bob'') (Some exampleUuid) [''Al'', ''Al''])) \<and>
   \<not> namesSelf (formOf (Some ''Bob'') (Some exampleUuid) [''Al'', ''Al'']) \<and>
   snd (snd (handleSubmit lookupsAnswered 0
               (formPage (formOf (Some ''Bob'') (Some exampleUuid) [''Al'', ''Al''])))) = [] \<and>
   fst (snd (handleSubmit lookupsAnswered 0
               (formPage (formOf (Some ''Bob'') (Some exampleUuid) [''Al'', ''Al''])))) = 0 \<and>
   errorMsg (fst (handleSubmit lookupsAnswered 0
                    (formPage (formOf (Some ''Bob'') (Some exampleUuid) [''Al'', ''Al'']))))
     = ''Duplicate alt accounts are not allowed''"
proof -
  let ?form = "formOf (Some ''Bob'') (Some exampleUuid) [''Al'', ''Al'']"
  have f: "playerForm (formPage ?form) = ?form"
    by (simp add: formPage_def)
  have d: "\<not> distinct (cleanAltAccounts (playerForm (formPage ?form)))"
    by (simp add: formPage_def formOf_def initialPlayerForm_def cleanAltAccounts_def trim_def
        isWhiteSpace_def)
  have n: "\<not> namesSelf ?form"
    by (simp add: namesSelf_def formOf_def initialPlayerForm_def cleanAltAccounts_def trim_def
        isWhiteSpace_def exampleUuid_def)
  have b: "\<not> blank (form_currentIgn ?form)"
    by (simp add: formOf_def blank_def trim_def isWhiteSpace_def)
  have r: "resolveIdentity lookupsAnswered ?form = Inr ?form"
    by (simp add: resolveIdentity_def fetchIgn_def fetchUuid_def formOf_def
        initialPlayerForm_def blank_def trim_def isWhiteSpace_def exampleUuid_def)
  have p: "handleSubmit lookupsAnswered 0 (formPage ?form) =
             (fst (handleSubmit lookupsAnswered 0 (formPage ?form)),
              fst (snd (handleSubmit lookupsAnswered 0 (formPage ?form))),
              snd (snd (handleSubmit lookupsAnswered 0 (formPage ?form))))"
    by simp
  show ?thesis
    using handleSubmit_duplicate_alts_rejected [OF d p] d n b r by (simp add: f)
qed

text \<open>
  A form that passes every check is written: with a selected player, the document is
  updated and then \<^verbatim>\<open>updatePlayerData\<close> is called.
\<close>

lemma handleSubmit_accepts_example:
  "snd (handleSubmit lookupsAnswered 0
          ((formPage (formOf (Some ''Bob '') (Some exampleUuid) [''Al'', '' '']))
             \<lparr>selectedPlayer := Some examplePlayer\<rparr>)) =
     (2, [UpdateDoc ''p1'' \<lparr>upd_currentIgn = ''Bob'', upd_uuid = exampleUuid,
                              upd_pastIgns = [], upd_role = None\<rparr>,
          UpdatePlayerData ''Bob'' None [''Al'']])"
  by (simp add: handleSubmit_def writePlayer_def Let_def formPage_def formOf_def
      initialPlayerForm_def blank_def fetchIgn_def fetchUuid_def includesSelf_def
      trimmedOrEmpty_def cleanAltAccounts_def cleanPastIgns_def uniqueAlts_def roleOrNull_def
      trim_def isWhiteSpace_def exampleUuid_def examplePlayer_def lookupsAnswered_def)

section \<open>Properties: editing an alt account\<close>

text \<open>The predicate of the code is the name match of the claim.\<close>

lemma hasIgn_sameName: "hasIgn toLowerCase v p = sameNameIgnoringCase toLowerCase v p"
  by (auto simp: hasIgn_def list_ex_iff split: option.splits)

lemma altAccountEntry_uuid: "uuidRegex_test v \<Longrightarrow> altAccountEntry toLowerCase ps v = v"
  by (simp add: altAccountEntry_def)

lemma altAccountEntry_found:
  assumes "\<not> uuidRegex_test v" and "\<exists>p \<in> set ps. sameNameIgnoringCase toLowerCase v p"
  shows "\<exists>before p after. ps = before @ p # after \<and>
           (\<forall>q \<in> set before. \<not> sameNameIgnoringCase toLowerCase v q) \<and>
           sameNameIgnoringCase toLowerCase v p \<and> altAccountEntry toLowerCase ps v = uuid p"
proof -
  from assms(2) have "\<exists>p \<in> set ps. hasIgn toLowerCase v p"
    by (simp only: hasIgn_sameName)
  then obtain p where f: "find (hasIgn toLowerCase v) ps = Some p"
    by (cases "find (hasIgn toLowerCase v) ps") (auto simp: find_None_iff)
  then obtain i where i: "i < length ps" "hasIgn toLowerCase v (ps ! i)" "p = ps ! i"
    "\<forall>j<i. \<not> hasIgn toLowerCase v (ps ! j)"
    by (auto simp: find_Some_iff)
  have "ps = take i ps @ p # drop (Suc i) ps"
    using i(1,3) by (simp add: id_take_nth_drop)
  moreover have "\<forall>q \<in> set (take i ps). \<not> hasIgn toLowerCase v q"
    using i(1,4) by (auto simp: in_set_conv_nth)
  moreover have "altAccountEntry toLowerCase ps v = uuid p"
    using assms(1) f by (simp add: altAccountEntry_def)
  ultimately have "\<exists>before p after. ps = before @ p # after \<and>
           (\<forall>q \<in> set before. \<not> hasIgn toLowerCase v q) \<and>
           hasIgn toLowerCase v p \<and> altAccountEntry toLowerCase ps v = uuid p"
    using i(2,3) by blast
  then show ?thesis
    by (simp only: hasIgn_sameName)
qed

lemma altAccountEntry_unknown:
  assumes "\<not> uuidRegex_test v" and "\<forall>p \<in> set ps. \<not> sameNameIgnoringCase toLowerCase v p"
  shows "altAccountEntry toLowerCase ps v = v"
proof -
  from assms(2) have "\<forall>p \<in> set ps. \<not> hasIgn toLowerCase v p"
    by (simp only: hasIgn_sameName)
  then have "find (hasIgn toLowerCase v) ps = None"
    by (simp add: find_None_iff)
  with assms(1) show ?thesis by (simp add: altAccountEntry_def)
qed

text \<open>
  C6. Editing the alt account at an index of the form replaces that entry and no other.
  A value in UUID format is stored as it is. Otherwise, when some player's current name
  or one of the player's past names equals the value once both are put in lower case,
  the entry becomes the UUID of such a player, the first one in the list of players.
  Otherwise, when no player has such a name, the value is stored as it is.
\<close>

theorem altAccountOnChange_resolves:
  assumes "form_altAccounts (playerForm pg) = Some alts" and "index < length alts"
  shows "length (altAccountsOf (altAccountOnChange toLowerCase index v pg)) = length alts \<and>
         (\<forall>j. j \<noteq> index \<longrightarrow>
            altAccountsOf (altAccountOnChange toLowerCase index v pg) ! j = alts ! j) \<and>
         (uuidRegex_test v \<longrightarrow>
            altAccountsOf (altAccountOnChange toLowerCase index v pg) ! index = v) \<and>
         (\<not> uuidRegex_test v \<and>
          (\<exists>p \<in> set (players pg).
             toLowerCase (currentIgn p) = toLowerCase v \<or>
             (\<exists>igns. pastIgns p = Some igns \<and> (\<exists>ign \<in> set igns. toLowerCase ign = toLowerCase v)))
          \<longrightarrow>
            (\<exists>before p after. players pg = before @ p # after \<and>
               (\<forall>q \<in> set before.
                  \<not> (toLowerCase (currentIgn q) = toLowerCase v \<or>
                     (\<exists>igns. pastIgns q = Some igns \<and>
                        (\<exists>ign \<in> set igns. toLowerCase ign = toLowerCase v)))) \<and>
               (toLowerCase (currentIgn p) = toLowerCase v \<or>
                (\<exists>igns. pastIgns p = Some igns \<and>
                   (\<exists>ign \<in> set igns. toLowerCase ign = toLowerCase v))) \<and>
               altAccountsOf (altAccountOnChange toLowerCase index v pg) ! index = uuid p)) \<and>
         (\<not> uuidRegex_test v \<and>
          (\<forall>p \<in> set (players pg).
             \<not> (toLowerCase (currentIgn p) = toLowerCase v \<or>
                (\<exists>igns. pastIgns p = Some igns \<and>
                   (\<exists>ign \<in> set igns. toLowerCase ign = toLowerCase v))))
          \<longrightarrow> altAccountsOf (altAccountOnChange toLowerCase index v pg) ! index = v)"
proof -
  have a: "altAccountsOf (altAccountOnChange toLowerCase index v pg)
             = alts[index := altAccountEntry toLowerCase (players pg) v]"
    using assms(1) by (simp add: altAccountsOf_def altAccountOnChange_def Let_def)
  have e: "altAccountsOf (altAccountOnChange toLowerCase index v pg) ! index
             = altAccountEntry toLowerCase (players pg) v"
    using assms(2) by (simp add: a)
  show ?thesis
    unfolding e
    using altAccountEntry_uuid [of v toLowerCase "players pg"]
      altAccountEntry_found [of v "players pg" toLowerCase]
      altAccountEntry_unknown [of v "players pg" toLowerCase]
    by (simp add: a)
qed

lemma exampleUuid_matches: "uuidRegex_test exampleUuid"
  by code_simp

lemma names_are_no_uuid: "\<not> uuidRegex_test ''BOBBY''" "\<not> uuidRegex_test ''Dave''"
  by code_simp+

lemma twoPlayersPage_fields:
  "form_altAccounts (playerForm twoPlayersPage) = Some [''x'', []]"
  "players twoPlayersPage = [otherPlayer, examplePlayer]"
  by (simp_all add: twoPlayersPage_def formPage_def formOf_def)

lemma bobby_is_examplePlayer:
  "sameNameIgnoringCase asciiToLowerCase ''BOBBY'' examplePlayer"
  "\<not> sameNameIgnoringCase asciiToLowerCase ''BOBBY'' otherPlayer"
  by (simp_all add: examplePlayer_def otherPlayer_def asciiToLowerCase_def lowerChar_def)

lemma dave_is_nobody:
  "\<not> sameNameIgnoringCase asciiToLowerCase ''Dave'' examplePlayer"
  "\<not> sameNameIgnoringCase asciiToLowerCase ''Dave'' otherPlayer"
  by (simp_all add: examplePlayer_def otherPlayer_def asciiToLowerCase_def lowerChar_def)

lemma two_entries:
  assumes "length xs = 2" and "xs ! 0 = a" and "xs ! 1 = b"
  shows "xs = [a, b]"
  using assms by (auto simp: list_eq_iff_nth_eq less_Suc_eq numeral_2_eq_2)

theorem altAccountOnChange_resolves_witness:
  "form_altAccounts (playerForm twoPlayersPage) = Some [''x'', []] \<and>
   (1::nat) < length [''x'', []] \<and>
   players twoPlayersPage = [otherPlayer, examplePlayer] \<and>
   \<not> uuidRegex_test ''BOBBY'' \<and>
   \<not> sameNameIgnoringCase asciiToLowerCase ''BOBBY'' otherPlayer \<and>
   sameNameIgnoringCase asciiToLowerCase ''BOBBY'' examplePlayer \<and>
   altAccountsOf (altAccountOnChange asciiToLowerCase 1 ''BOBBY'' twoPlayersPage)
     = [''x'', uuid examplePlayer] \<and>
   \<not> uuidRegex_test ''Dave'' \<and>
   \<not> sameNameIgnoringCase asciiToLowerCase ''Dave'' otherPlayer \<and>
   \<not> sameNameIgnoringCase asciiToLowerCase ''Dave'' examplePlayer \<and>
   altAccountsOf (altAccountOnChange asciiToLowerCase 1 ''Dave'' twoPlayersPage)
     = [''x'', ''Dave''] \<and>
   uuidRegex_test exampleUuid \<and>
   altAccountsOf (altAccountOnChange asciiToLowerCase 1 exampleUuid twoPlayersPage)
     = [''x'', exampleUuid]"
proof -
  have i: "(1::nat) < length [''x'', []]"
    by simp
  note r = altAccountOnChange_resolves [OF twoPlayersPage_fields(1) i, of asciiToLowerCase]
  have len: "length (altAccountsOf (altAccountOnChange asciiToLowerCase 1 v twoPlayersPage)) = 2"
    for v
    using r [of v] by simp
  have z: "altAccountsOf (altAccountOnChange asciiToLowerCase 1 v twoPlayersPage) ! 0 = ''x''"
    for v
    using r [of v] by simp
  have "\<exists>before p after. [otherPlayer, examplePlayer] = before @ p # after \<and>
          (\<forall>q \<in> set before. \<not> sameNameIgnoringCase asciiToLowerCase ''BOBBY'' q) \<and>
          sameNameIgnoringCase asciiToLowerCase ''BOBBY'' p \<and>
          altAccountsOf (altAccountOnChange asciiToLowerCase 1 ''BOBBY'' twoPlayersPage) ! 1
            = uuid p"
    using r [of "''BOBBY''"] names_are_no_uuid(1) bobby_is_examplePlayer(1)
    unfolding twoPlayersPage_fields(2) by auto
  then obtain before p after where s: "[otherPlayer, examplePlayer] = before @ p # after"
    and m: "sameNameIgnoringCase asciiToLowerCase ''BOBBY'' p"
    and o: "altAccountsOf (altAccountOnChange asciiToLowerCase 1 ''BOBBY'' twoPlayersPage) ! 1
              = uuid p"
    by blast
  from s have "p = otherPlayer \<or> p = examplePlayer"
    by (auto simp: Cons_eq_append_conv)
  with m bobby_is_examplePlayer(2) have "p = examplePlayer"
    by blast
  with o have b1:
    "altAccountsOf (altAccountOnChange asciiToLowerCase 1 ''BOBBY'' twoPlayersPage) ! 1
       = uuid examplePlayer"
    by simp
  have bobby: "altAccountsOf (altAccountOnChange asciiToLowerCase 1 ''BOBBY'' twoPlayersPage)
                 = [''x'', uuid examplePlayer]"
    by (rule two_entries [OF len z b1])
  have d1: "altAccountsOf (altAccountOnChange asciiToLowerCase 1 ''Dave'' twoPlayersPage) ! 1
              = ''Dave''"
    using r [of "''Dave''"] names_are_no_uuid(2) dave_is_nobody
    unfolding twoPlayersPage_fields(2) by simp
  have dave: "altAccountsOf (altAccountOnChange asciiToLowerCase 1 ''Dave'' twoPlayersPage)
                = [''x'', ''Dave'']"
    by (rule two_entries [OF len z d1])
  have u1: "altAccountsOf (altAccountOnChange asciiToLowerCase 1 exampleUuid twoPlayersPage) ! 1
              = exampleUuid"
    using r [of exampleUuid] exampleUuid_matches by simp
  have given: "altAccountsOf (altAccountOnChange asciiToLowerCase 1 exampleUuid twoPlayersPage)
                 = [''x'', exampleUuid]"
    by (rule two_entries [OF len z u1])
  show ?thesis
    by (intro conjI twoPlayersPage_fields i names_are_no_uuid bobby_is_examplePlayer
        dave_is_nobody bobby dave exampleUuid_matches given)
qed

section \<open>Properties: zoom\<close>

lemma clampSpacing_id:
  "minYearSpacing cfg \<le> x \<Longrightarrow> x \<le> maxYearSpacing cfg \<Longrightarrow> clampSpacing cfg x = x"
  by (simp add: clampSpacing_def)

lemma clampSpacing_closer:
  assumes "minYearSpacing cfg \<le> y" "y \<le> maxYearSpacing cfg"
  shows "\<bar>clampSpacing cfg w - y\<bar> \<le> \<bar>w - y\<bar>"
  using assms by (auto simp: clampSpacing_def max_def min_def)

lemma clampSpacing_above:
  "minYearSpacing cfg \<le> maxYearSpacing cfg \<Longrightarrow> maxYearSpacing cfg \<le> x \<Longrightarrow>
     clampSpacing cfg x = maxYearSpacing cfg"
  by (simp add: clampSpacing_def)

lemma clampSpacing_below:
  "minYearSpacing cfg \<le> maxYearSpacing cfg \<Longrightarrow> x \<le> minYearSpacing cfg \<Longrightarrow>
     clampSpacing cfg x = minYearSpacing cfg"
  by (simp add: clampSpacing_def)

lemma step_at_least_one:
  fixes s u :: real
  assumes u: "0 \<le> u" "u < 1" and s: "1 \<le> s * (1 - u)"
  shows "1 \<le> s" "0 < s"
proof -
  have n: "0 \<le> s"
  proof (rule ccontr)
    assume "\<not> 0 \<le> s"
    then have "s * (1 - u) \<le> 0" using u by (simp add: mult_nonpos_nonneg)
    with s show False by simp
  qed
  have "s * (1 - u) \<le> s * 1"
    using u n by (intro mult_left_mono) simp_all
  with s show "1 \<le> s" by simp
  then show "0 < s" by simp
qed

lemma zoom_values:
  fixes rnd :: "real \<Rightarrow> real" and u :: real
  assumes u: "0 \<le> u" "u < 1"
    and s: "1 \<le> zoomStep cfg * (1 - u)"
    and b: "0 < minYearSpacing cfg" "minYearSpacing cfg \<le> maxYearSpacing cfg"
    and r: "\<forall>x. minYearSpacing cfg / zoomStep cfg \<le> x \<and> x \<le> maxYearSpacing cfg * zoomStep cfg
                 \<longrightarrow> \<bar>rnd x - x\<bar> \<le> u * \<bar>x\<bar>"
  shows "(minYearSpacing cfg \<le> y \<and> y \<le> maxYearSpacing cfg \<and>
          rnd (y * zoomStep cfg) \<le> maxYearSpacing cfg \<longrightarrow>
            zoomIn rnd cfg y = rnd (y * zoomStep cfg) \<and>
            \<bar>zoomOut rnd cfg (zoomIn rnd cfg y) - y\<bar> \<le> (2 * u + u * u) * y) \<and>
         zoomIn rnd cfg (maxYearSpacing cfg) = maxYearSpacing cfg \<and>
         zoomIn rnd cfg (zoomIn rnd cfg (maxYearSpacing cfg)) = zoomIn rnd cfg (maxYearSpacing cfg) \<and>
         zoomOut rnd cfg (minYearSpacing cfg) = minYearSpacing cfg \<and>
         zoomOut rnd cfg (zoomOut rnd cfg (minYearSpacing cfg)) = zoomOut rnd cfg (minYearSpacing cfg)"
proof -
  define st where "st = zoomStep cfg"
  define lo where "lo = minYearSpacing cfg"
  define hi where "hi = maxYearSpacing cfg"
  have s1: "1 \<le> st" and s0: "0 < st"
    using step_at_least_one [OF u] s by (simp_all add: st_def)
  have lohi: "0 < lo" "lo \<le> hi" using b by (simp_all add: lo_def hi_def)
  have rr: "\<bar>rnd x - x\<bar> \<le> u * x" if "lo / st \<le> x" "x \<le> hi * st" for x
  proof -
    have "0 < lo / st" using lohi s0 by simp
    with that have "0 < x" by linarith
    moreover have "\<bar>rnd x - x\<bar> \<le> u * \<bar>x\<bar>"
      using r [rule_format, of x] that by (simp add: st_def lo_def hi_def)
    ultimately show ?thesis by simp
  qed
  have lo_div: "lo / st \<le> lo"
    using s1 lohi s0 by (simp add: field_simps)
  have hi_mul: "hi \<le> hi * st"
    using s1 lohi by (simp add: field_simps)
  have grow: "x \<le> x * st * (1 - u)" if "0 \<le> x" for x
  proof -
    have "x * 1 \<le> x * (st * (1 - u))"
      using that s by (intro mult_left_mono) (simp_all add: st_def)
    then show ?thesis by (simp add: mult.assoc)
  qed
  have up: "x \<le> rnd (x * st)" if "lo \<le> x" "x \<le> hi" for x
  proof -
    have "lo / st \<le> x * st"
    proof -
      have "x \<le> x * st" using s1 that lohi by (simp add: field_simps)
      with lo_div that show ?thesis by linarith
    qed
    moreover have "x * st \<le> hi * st" using that s0 by simp
    ultimately have "\<bar>rnd (x * st) - x * st\<bar> \<le> u * (x * st)" by (rule rr)
    then have "x * st - u * (x * st) \<le> rnd (x * st)" by linarith
    moreover have "x * st - u * (x * st) = x * st * (1 - u)" by (simp add: algebra_simps)
    moreover have "x \<le> x * st * (1 - u)" using that lohi by (intro grow) linarith
    ultimately show ?thesis by linarith
  qed
  have su: "1 + u \<le> st"
  proof -
    have "(1 + u) * (1 - u) \<le> 1" using u by (simp add: algebra_simps)
    with s have "(1 + u) * (1 - u) \<le> st * (1 - u)" by (simp add: st_def)
    then show ?thesis using u by (simp add: mult_le_cancel_right)
  qed
  have down: "rnd (x / st) \<le> x" if "lo \<le> x" "x \<le> hi" for x
  proof -
    define q where "q = x / st"
    have 0: "0 < x" using that lohi by linarith
    have q0: "0 < q" using 0 s0 by (simp add: q_def)
    have qx: "q * st = x" using s0 by (simp add: q_def)
    have "lo / st \<le> q" using that s0 by (simp add: q_def divide_right_mono)
    moreover have "q \<le> hi * st"
    proof -
      have "q * 1 \<le> q * st" using s1 q0 by (intro mult_left_mono) simp_all
      with qx that hi_mul show ?thesis by linarith
    qed
    ultimately have "\<bar>rnd q - q\<bar> \<le> u * q" by (rule rr)
    then have "rnd q \<le> q + u * q" by linarith
    moreover have "q + u * q = q * (1 + u)" by (simp add: algebra_simps)
    moreover have "q * (1 + u) \<le> q * st" using su q0 by (intro mult_left_mono) simp_all
    ultimately show ?thesis using qx by (simp add: q_def)
  qed
  have top: "zoomIn rnd cfg hi = hi"
  proof -
    have "hi \<le> rnd (hi * st)" using up [of hi] lohi by simp
    then have "clampSpacing cfg (rnd (hi * st)) = maxYearSpacing cfg"
      using b by (intro clampSpacing_above) (simp_all add: hi_def)
    then show ?thesis by (simp add: zoomIn_def st_def hi_def)
  qed
  have bot: "zoomOut rnd cfg lo = lo"
  proof -
    have "rnd (lo / st) \<le> lo" using down [of lo] lohi by simp
    then have "clampSpacing cfg (rnd (lo / st)) = minYearSpacing cfg"
      using b by (intro clampSpacing_below) (simp_all add: lo_def)
    then show ?thesis by (simp add: zoomOut_def st_def lo_def)
  qed
  have trip: "zoomIn rnd cfg y = rnd (y * st) \<and>
        \<bar>zoomOut rnd cfg (zoomIn rnd cfg y) - y\<bar> \<le> (2 * u + u * u) * y"
    if y: "lo \<le> y" "y \<le> hi" "rnd (y * st) \<le> hi"
  proof -
    define z where "z = rnd (y * st)"
    define w where "w = rnd (z / st)"
    have y0: "0 < y" using y lohi by linarith
    have zlo: "lo \<le> z" using up [OF y(1,2)] y(1) by (simp add: z_def)
    have zin: "zoomIn rnd cfg y = z"
      using zlo y(3) by (simp add: zoomIn_def z_def st_def clampSpacing_id lo_def hi_def)
    have ez: "\<bar>z - y * st\<bar> \<le> u * (y * st)"
    proof -
      have "lo / st \<le> y * st"
      proof -
        have "y \<le> y * st" using s1 y0 by (simp add: field_simps)
        with lo_div y show ?thesis by linarith
      qed
      moreover have "y * st \<le> hi * st" using y s0 by simp
      ultimately show ?thesis unfolding z_def by (rule rr)
    qed
    define q where "q = z / st"
    have qz: "q * st = z" using s0 by (simp add: q_def)
    have ew: "\<bar>w - q\<bar> \<le> u * q"
    proof -
      have "lo / st \<le> q" using zlo s0 by (simp add: q_def divide_right_mono)
      moreover have "q \<le> hi * st"
      proof -
        have "0 < q" using zlo lohi s0 by (simp add: q_def)
        then have "q * 1 \<le> q * st" using s1 by (intro mult_left_mono) simp_all
        with y(3) hi_mul qz show ?thesis by (simp add: z_def)
      qed
      ultimately show ?thesis unfolding w_def q_def [symmetric] by (rule rr)
    qed
    have qhi: "q \<le> y + u * y"
    proof -
      have "q * st \<le> y * st + u * (y * st)" using ez qz by linarith
      also have "\<dots> = (y + u * y) * st" by (simp add: algebra_simps)
      finally show ?thesis using s0 by (simp only: mult_le_cancel_right_pos)
    qed
    have qlo: "y - u * y \<le> q"
    proof -
      have "y * st - u * (y * st) \<le> q * st" using ez qz by linarith
      moreover have "y * st - u * (y * st) = (y - u * y) * st" by (simp add: algebra_simps)
      ultimately have "(y - u * y) * st \<le> q * st" by simp
      then show ?thesis using s0 by (simp only: mult_le_cancel_right_pos)
    qed
    have "u * q \<le> u * (y + u * y)"
      using qhi u by (intro mult_left_mono) simp_all
    with ew have "\<bar>w - q\<bar> \<le> u * (y + u * y)" by linarith
    with qhi qlo have "\<bar>w - y\<bar> \<le> u * (y + u * y) + u * y" by linarith
    also have "\<dots> = (2 * u + u * u) * y" by (simp add: algebra_simps)
    finally have "\<bar>w - y\<bar> \<le> (2 * u + u * u) * y" .
    moreover have "\<bar>clampSpacing cfg w - y\<bar> \<le> \<bar>w - y\<bar>"
      using y by (intro clampSpacing_closer) (simp_all add: lo_def hi_def)
    moreover have "zoomOut rnd cfg z = clampSpacing cfg w"
      by (simp add: zoomOut_def w_def st_def)
    ultimately show ?thesis using zin by (simp add: z_def)
  qed
  show ?thesis
    using top bot trip unfolding lo_def hi_def st_def by auto
qed

lemma roundTo1024_error: "\<bar>roundTo1024 x - x\<bar> \<le> 1 / 2048"
proof -
  define n where "n = \<lfloor>x * 1024 + 1 / 2\<rfloor>"
  have "of_int n \<le> x * 1024 + 1 / 2" "x * 1024 + 1 / 2 < of_int n + 1"
    unfolding n_def by linarith+
  then have "\<bar>of_int n / 1024 - x\<bar> \<le> 1 / 2048"
    by linarith
  then show ?thesis by (simp add: roundTo1024_def n_def)
qed

lemma roundTo1024_relative:
  "\<forall>x. minYearSpacing exampleZoom / zoomStep exampleZoom \<le> x \<and>
        x \<le> maxYearSpacing exampleZoom * zoomStep exampleZoom
        \<longrightarrow> \<bar>roundTo1024 x - x\<bar> \<le> (1 / 1000) * \<bar>x\<bar>"
proof (intro allI impI)
  fix x :: real
  assume "minYearSpacing exampleZoom / zoomStep exampleZoom \<le> x \<and>
          x \<le> maxYearSpacing exampleZoom * zoomStep exampleZoom"
  then have "1 \<le> x" by (simp add: exampleZoom_def)
  then have "1 / 2048 \<le> (1 / 1000) * \<bar>x\<bar>" by simp
  with roundTo1024_error [of x] show "\<bar>roundTo1024 x - x\<bar> \<le> (1 / 1000) * \<bar>x\<bar>"
    by linarith
qed

lemma zoomIn_example: "zoomIn roundTo1024 exampleZoom (1003 / 10) = 123249 / 1024"
  by (simp add: zoomIn_def clampSpacing_def exampleZoom_def roundTo1024_def)

lemma zoomOut_example: "zoomOut roundTo1024 exampleZoom (123249 / 1024) = 25677 / 256"
  by (simp add: zoomOut_def clampSpacing_def exampleZoom_def roundTo1024_def)

text \<open>
  C9. Let the rounding of the arithmetic have relative error at most \<open>u\<close> on the range of
  the values that occur (from min/step to max times step), with \<open>u\<close> small enough that
  step times (1 - u) is still at least 1, and let 0 < min \<le> max. Then on every page
  whose \<open>yearSpacing\<close> lies between min and max and whose zoom-in is not clamped (the
  rounded product does not exceed max), \<^verbatim>\<open>handleZoomIn\<close> followed by \<^verbatim>\<open>handleZoomOut\<close> gives
  back the original \<open>yearSpacing\<close> up to the relative tolerance 2u + u*u, which is zero
  for exact arithmetic, and changes nothing else. On a page whose \<open>yearSpacing\<close> is max,
  \<^verbatim>\<open>handleZoomIn\<close> changes nothing, however often it is repeated, and on a page whose
  \<open>yearSpacing\<close> is min the same holds for \<^verbatim>\<open>handleZoomOut\<close>.
\<close>

theorem zoom_round_trip:
  fixes rnd :: "real \<Rightarrow> real" and u :: real
  assumes u: "0 \<le> u" "u < 1"
    and s: "1 \<le> zoomStep cfg * (1 - u)"
    and b: "0 < minYearSpacing cfg" "minYearSpacing cfg \<le> maxYearSpacing cfg"
    and r: "\<forall>x. minYearSpacing cfg / zoomStep cfg \<le> x \<and> x \<le> maxYearSpacing cfg * zoomStep cfg
                 \<longrightarrow> \<bar>rnd x - x\<bar> \<le> u * \<bar>x\<bar>"
  shows "(minYearSpacing cfg \<le> yearSpacing st \<and> yearSpacing st \<le> maxYearSpacing cfg \<and>
          rnd (yearSpacing st * zoomStep cfg) \<le> maxYearSpacing cfg \<longrightarrow>
            \<bar>yearSpacing (handleZoomOut rnd cfg (handleZoomIn rnd cfg st)) - yearSpacing st\<bar>
              \<le> (2 * u + u * u) * yearSpacing st \<and>
            handleZoomOut rnd cfg (handleZoomIn rnd cfg st) =
              st\<lparr>yearSpacing := yearSpacing (handleZoomOut rnd cfg (handleZoomIn rnd cfg st))\<rparr>) \<and>
         (yearSpacing st = maxYearSpacing cfg \<longrightarrow>
            handleZoomIn rnd cfg st = st \<and>
            handleZoomIn rnd cfg (handleZoomIn rnd cfg st) = handleZoomIn rnd cfg st) \<and>
         (yearSpacing st = minYearSpacing cfg \<longrightarrow>
            handleZoomOut rnd cfg st = st \<and>
            handleZoomOut rnd cfg (handleZoomOut rnd cfg st) = handleZoomOut rnd cfg st)"
  using zoom_values [OF u s b r, of "yearSpacing st"]
  by (auto simp: handleZoomIn_def handleZoomOut_def)

theorem zoom_round_trip_witness:
  "(0::real) \<le> 1 / 1000 \<and> (1::real) / 1000 < 1 \<and>
   1 \<le> zoomStep exampleZoom * (1 - 1 / 1000) \<and>
   0 < minYearSpacing exampleZoom \<and> minYearSpacing exampleZoom \<le> maxYearSpacing exampleZoom \<and>
   minYearSpacing exampleZoom \<le> 1003 / 10 \<and> 1003 / 10 \<le> maxYearSpacing exampleZoom \<and>
   roundTo1024 (1003 / 10 * zoomStep exampleZoom) \<le> maxYearSpacing exampleZoom \<and>
   yearSpacing (handleZoomOut roundTo1024 exampleZoom
     (handleZoomIn roundTo1024 exampleZoom ((examplePage [])\<lparr>yearSpacing := 1003 / 10\<rparr>)))
     = 25677 / 256 \<and>
   \<bar>yearSpacing (handleZoomOut roundTo1024 exampleZoom
      (handleZoomIn roundTo1024 exampleZoom ((examplePage [])\<lparr>yearSpacing := 1003 / 10\<rparr>)))
     - 1003 / 10\<bar>
     \<le> (2 * (1 / 1000) + (1 / 1000) * (1 / 1000)) * (1003 / 10) \<and>
   handleZoomIn roundTo1024 exampleZoom ((examplePage [])\<lparr>yearSpacing := 400\<rparr>)
     = (examplePage [])\<lparr>yearSpacing := 400\<rparr> \<and>
   handleZoomOut roundTo1024 exampleZoom ((examplePage [])\<lparr>yearSpacing := 50\<rparr>)
     = (examplePage [])\<lparr>yearSpacing := 50\<rparr>"
proof -
  have h: "(0::real) \<le> 1 / 1000" "(1::real) / 1000 < 1"
    "1 \<le> zoomStep exampleZoom * (1 - 1 / 1000)"
    "0 < minYearSpacing exampleZoom" "minYearSpacing exampleZoom \<le> maxYearSpacing exampleZoom"
    by (simp_all add: exampleZoom_def)
  have y: "minYearSpacing exampleZoom \<le> 1003 / 10" "1003 / 10 \<le> maxYearSpacing exampleZoom"
    "roundTo1024 (1003 / 10 * zoomStep exampleZoom) \<le> maxYearSpacing exampleZoom"
    by (simp_all add: exampleZoom_def roundTo1024_def)
  let ?at = "\<lambda>v. (examplePage [])\<lparr>yearSpacing := v\<rparr>"
  have ys: "yearSpacing (?at v) = v" for v
    by simp
  have c: "yearSpacing (handleZoomOut roundTo1024 exampleZoom
             (handleZoomIn roundTo1024 exampleZoom (?at (1003 / 10)))) = 25677 / 256"
    by (simp add: handleZoomIn_def handleZoomOut_def zoomIn_example zoomOut_example)
  have e: "\<bar>yearSpacing (handleZoomOut roundTo1024 exampleZoom
              (handleZoomIn roundTo1024 exampleZoom (?at (1003 / 10)))) - 1003 / 10\<bar>
             \<le> (2 * (1 / 1000) + (1 / 1000) * (1 / 1000)) * (1003 / 10)"
    using zoom_round_trip [OF h roundTo1024_relative, of "?at (1003 / 10)"] y
    unfolding ys by blast
  have top: "handleZoomIn roundTo1024 exampleZoom (?at 400) = ?at 400"
    using zoom_round_trip [OF h roundTo1024_relative, of "?at 400"]
    unfolding ys by (simp add: exampleZoom_def)
  have bot: "handleZoomOut roundTo1024 exampleZoom (?at 50) = ?at 50"
    using zoom_round_trip [OF h roundTo1024_relative, of "?at 50"]
    unfolding ys by (simp add: exampleZoom_def)
  show ?thesis
    by (intro conjI h y c e top bot)
qed

end
